theory Spec2Isabelle
  imports Complex_Main "HOL-Library.Multiset"
begin

section \<open>Floating-point values\<close>

text \<open>
  The numbers of the program are numpy float64 values.  They are modelled as exact reals
  extended with the two infinities and NaN: arithmetic on finite values is exact (no
  rounding, no overflow), and the special values follow IEEE 754 as numpy implements it
  (a division by zero gives an infinity or NaN and a warning, never an exception).
  There is a single zero, so a zero divisor counts as \<open>+0.0\<close>.
\<close>

datatype fval = Fin real | PInf | NInf | NaN

fun fneg :: "fval \<Rightarrow> fval" where
  "fneg (Fin a) = Fin (- a)"
| "fneg PInf = NInf"
| "fneg NInf = PInf"
| "fneg NaN = NaN"

fun fadd :: "fval \<Rightarrow> fval \<Rightarrow> fval" where
  "fadd (Fin a) (Fin b) = Fin (a + b)"
| "fadd (Fin a) PInf = PInf"
| "fadd (Fin a) NInf = NInf"
| "fadd PInf (Fin b) = PInf"
| "fadd NInf (Fin b) = NInf"
| "fadd PInf PInf = PInf"
| "fadd NInf NInf = NInf"
| "fadd PInf NInf = NaN"
| "fadd NInf PInf = NaN"
| "fadd NaN y = NaN"
| "fadd x NaN = NaN"

definition fsub :: "fval \<Rightarrow> fval \<Rightarrow> fval" where
  "fsub x y = fadd x (fneg y)"

fun fmul :: "fval \<Rightarrow> fval \<Rightarrow> fval" where
  "fmul (Fin a) (Fin b) = Fin (a * b)"
| "fmul (Fin a) PInf = (if a = 0 then NaN else if 0 < a then PInf else NInf)"
| "fmul (Fin a) NInf = (if a = 0 then NaN else if 0 < a then NInf else PInf)"
| "fmul PInf (Fin b) = (if b = 0 then NaN else if 0 < b then PInf else NInf)"
| "fmul NInf (Fin b) = (if b = 0 then NaN else if 0 < b then NInf else PInf)"
| "fmul PInf PInf = PInf"
| "fmul NInf NInf = PInf"
| "fmul PInf NInf = NInf"
| "fmul NInf PInf = NInf"
| "fmul NaN y = NaN"
| "fmul x NaN = NaN"

fun fdiv :: "fval \<Rightarrow> fval \<Rightarrow> fval" where
  "fdiv (Fin a) (Fin b) =
     (if b = 0 then (if a = 0 then NaN else if 0 < a then PInf else NInf) else Fin (a / b))"
| "fdiv (Fin a) PInf = Fin 0"
| "fdiv (Fin a) NInf = Fin 0"
| "fdiv PInf (Fin b) = (if 0 \<le> b then PInf else NInf)"
| "fdiv NInf (Fin b) = (if 0 \<le> b then NInf else PInf)"
| "fdiv PInf PInf = NaN"
| "fdiv NInf NInf = NaN"
| "fdiv PInf NInf = NaN"
| "fdiv NInf PInf = NaN"
| "fdiv NaN y = NaN"
| "fdiv x NaN = NaN"

fun fabs :: "fval \<Rightarrow> fval" where
  "fabs (Fin a) = Fin \<bar>a\<bar>"
| "fabs PInf = PInf"
| "fabs NInf = PInf"
| "fabs NaN = NaN"

fun fsqrt :: "fval \<Rightarrow> fval" where
  "fsqrt (Fin a) = (if a < 0 then NaN else Fin (sqrt a))"
| "fsqrt PInf = PInf"
| "fsqrt NInf = NaN"
| "fsqrt NaN = NaN"

text \<open>Comparisons: every comparison with NaN is false.\<close>

fun flt :: "fval \<Rightarrow> fval \<Rightarrow> bool" where
  "flt (Fin a) (Fin b) = (a < b)"
| "flt (Fin a) PInf = True"
| "flt NInf (Fin b) = True"
| "flt NInf PInf = True"
| "flt x y = False"

definition fgt :: "fval \<Rightarrow> fval \<Rightarrow> bool" where
  "fgt x y = flt y x"

fun feq :: "fval \<Rightarrow> fval \<Rightarrow> bool" where
  "feq NaN y = False"
| "feq x NaN = False"
| "feq x y = (x = y)"

definition isna :: "fval \<Rightarrow> bool" where
  "isna x = (x = NaN)"

section \<open>Indexed series\<close>

text \<open>
  A timestamp is the wall-clock time of a bar in the session timezone, in seconds since
  1970-01-01 00:00; its calendar date is the day number.  A pandas Series is the list of
  its (index label, value) rows in order; a frame is the Close column of a price table,
  whose values are finite.
\<close>

type_synonym timestamp = int
type_synonym series = "(timestamp \<times> fval) list"
type_synonym frame = "(timestamp \<times> real) list"

definition date_of :: "timestamp \<Rightarrow> int" where
  "date_of t = t div 86400"

datatype py_error = IndexError | KeyError | FileNotFoundError | ValueError

fun iloc_first :: "'a list \<Rightarrow> py_error + 'a" where
  "iloc_first [] = Inl IndexError"
| "iloc_first (x # xs) = Inr x"

fun iloc_last :: "'a list \<Rightarrow> py_error + 'a" where
  "iloc_last [] = Inl IndexError"
| "iloc_last [x] = Inr x"
| "iloc_last (x # y # xs) = iloc_last (y # xs)"

subsection \<open>Simple returns: \<open>pct_change().dropna()\<close>\<close>

fun pct_from :: "real \<Rightarrow> frame \<Rightarrow> series" where
  "pct_from prev [] = []"
| "pct_from prev ((t, c) # rest) =
     (t, fsub (fdiv (Fin c) (Fin prev)) (Fin 1)) # pct_from c rest"

fun pct_change :: "frame \<Rightarrow> series" where
  "pct_change [] = []"
| "pct_change ((t, c) # rest) = (t, NaN) # pct_from c rest"

definition dropna :: "series \<Rightarrow> series" where
  "dropna s = filter (\<lambda>(t, v). \<not> isna v) s"

definition simple_returns :: "frame \<Rightarrow> series" where
  "simple_returns close = dropna (pct_change close)"

subsection \<open>Compounding: \<open>(1 + residuals).cumprod() - 1\<close>\<close>

text \<open>
  pandas' cumulative product skips missing values: a NaN entry stays NaN in the output
  and leaves the running product unchanged.
\<close>

fun cumprod_from :: "fval \<Rightarrow> series \<Rightarrow> series" where
  "cumprod_from acc [] = []"
| "cumprod_from acc ((t, v) # rest) =
     (if isna v then (t, NaN) # cumprod_from acc rest
      else (t, fmul acc v) # cumprod_from (fmul acc v) rest)"

definition cumprod :: "series \<Rightarrow> series" where
  "cumprod s = cumprod_from (Fin 1) s"

definition cum_residuals :: "series \<Rightarrow> series" where
  "cum_residuals residuals =
     map (\<lambda>(t, v). (t, fsub v (Fin 1)))
       (cumprod (map (\<lambda>(t, v). (t, fadd (Fin 1) v)) residuals))"

definition total_car :: "series \<Rightarrow> py_error + fval" where
  "total_car residuals = map_sum id snd (iloc_last (cum_residuals residuals))"

definition fin_series :: "frame \<Rightarrow> series" where
  "fin_series xs = map (\<lambda>(t, r). (t, Fin r)) xs"


subsection \<open>Index operations\<close>

definition index :: "(timestamp \<times> 'a) list \<Rightarrow> timestamp list" where
  "index s = map fst s"

text \<open>\<open>df[~df.index.duplicated(keep='first')]\<close>: a row stays when its label has not occurred before.\<close>

fun keep_first :: "timestamp list \<Rightarrow> (timestamp \<times> 'a) list \<Rightarrow> (timestamp \<times> 'a) list" where
  "keep_first seen [] = []"
| "keep_first seen ((t, v) # rest) =
     (if t \<in> set seen then keep_first seen rest else (t, v) # keep_first (t # seen) rest)"

definition drop_duplicated :: "(timestamp \<times> 'a) list \<Rightarrow> (timestamp \<times> 'a) list" where
  "drop_duplicated df = keep_first [] df"

definition sort_index :: "(timestamp \<times> 'a) list \<Rightarrow> (timestamp \<times> 'a) list" where
  "sort_index df = sort_key fst df"

text \<open>\<open>between_time("09:30", "16:00")\<close>: both bounds inclusive, on the time of day.\<close>

definition between_time :: "int \<Rightarrow> int \<Rightarrow> (timestamp \<times> 'a) list \<Rightarrow> (timestamp \<times> 'a) list" where
  "between_time lo hi df = filter (\<lambda>(t, v). lo \<le> t mod 86400 \<and> t mod 86400 \<le> hi) df"

text \<open>
  \<open>Index.intersection\<close>: the labels of the left index that occur in the right one, each
  once, in the order of the left index.
\<close>

fun unique_labels :: "timestamp list \<Rightarrow> timestamp list \<Rightarrow> timestamp list" where
  "unique_labels seen [] = []"
| "unique_labels seen (t # ts) =
     (if t \<in> set seen then unique_labels seen ts else t # unique_labels (t # seen) ts)"

definition intersection :: "timestamp list \<Rightarrow> timestamp list \<Rightarrow> timestamp list" where
  "intersection a b = filter (\<lambda>t. t \<in> set b) (unique_labels [] a)"

text \<open>
  \<open>df.loc[labels]\<close>: for each label in turn all rows carrying it; a label that is not in the
  index raises KeyError.
\<close>

fun loc :: "(timestamp \<times> 'a) list \<Rightarrow> timestamp list \<Rightarrow> py_error + (timestamp \<times> 'a) list" where
  "loc df [] = Inr []"
| "loc df (t # ts) =
     (case filter (\<lambda>(k, v). k = t) df of
        [] \<Rightarrow> Inl KeyError
      | rows \<Rightarrow> (case loc df ts of Inl e \<Rightarrow> Inl e | Inr later \<Rightarrow> Inr (rows @ later)))"

text \<open>
  Indexing with a boolean numpy array: positional, and an array of the wrong length raises
  IndexError.
\<close>

definition select :: "bool list \<Rightarrow> 'a list \<Rightarrow> 'a list" where
  "select msk xs = map snd (filter fst (zip msk xs))"

definition mask_select :: "bool list \<Rightarrow> 'a list \<Rightarrow> py_error + 'a list" where
  "mask_select msk xs = (if length msk \<noteq> length xs then Inl IndexError else Inr (select msk xs))"

text \<open>
  Arithmetic between two Series: equal indexes are combined row by row.  Otherwise the
  two are joined on their labels: the result runs through the sorted labels of either
  series, a label carried by several rows pairs every row of the left with every row of
  the right, and a label missing on one side gives NaN.
\<close>

definition rows_at :: "series \<Rightarrow> timestamp \<Rightarrow> fval list" where
  "rows_at s t = map snd (filter (\<lambda>(k, v). k = t) s)"

definition join_at :: "(fval \<Rightarrow> fval \<Rightarrow> fval) \<Rightarrow> series \<Rightarrow> series \<Rightarrow> timestamp \<Rightarrow> series" where
  "join_at f a b t =
     (let xs = rows_at a t; ys = rows_at b t in
      if ys = [] then map (\<lambda>x. (t, f x NaN)) xs
      else if xs = [] then map (\<lambda>y. (t, f NaN y)) ys
      else concat (map (\<lambda>x. map (\<lambda>y. (t, f x y)) ys) xs))"

definition series_binop :: "(fval \<Rightarrow> fval \<Rightarrow> fval) \<Rightarrow> series \<Rightarrow> series \<Rightarrow> series" where
  "series_binop f a b =
     (if index a = index b then map (\<lambda>((t, x), (t', y)). (t, f x y)) (zip a b)
      else concat (map (join_at f a b) (sort (remdups (index a @ index b)))))"

definition scale :: "fval \<Rightarrow> series \<Rightarrow> series" where
  "scale k s = map (\<lambda>(t, v). (t, fmul k v)) s"

subsection \<open>Reductions\<close>

definition fsum :: "fval list \<Rightarrow> fval" where
  "fsum xs = foldl fadd (Fin 0) xs"

definition nonmissing :: "fval list \<Rightarrow> fval list" where
  "nonmissing xs = filter (\<lambda>v. \<not> isna v) xs"

text \<open>\<open>Series.mean()\<close> and \<open>Series.std()\<close> skip NaN; the standard deviation has \<open>ddof = 1\<close>.\<close>

definition series_mean :: "fval list \<Rightarrow> fval" where
  "series_mean xs =
     (let ys = nonmissing xs in
      if ys = [] then NaN else fdiv (fsum ys) (Fin (real (length ys))))"

definition series_var :: "fval list \<Rightarrow> fval" where
  "series_var xs =
     (let ys = nonmissing xs; n = length ys in
      if n \<le> 1 then NaN
      else let avg = fdiv (fsum ys) (Fin (real n)) in
           fdiv (fsum (map (\<lambda>v. fmul (fsub avg v) (fsub avg v)) ys)) (Fin (real (n - 1))))"

definition series_std :: "fval list \<Rightarrow> fval" where
  "series_std xs = fsqrt (series_var xs)"

definition fmax :: "fval \<Rightarrow> fval \<Rightarrow> fval" where
  "fmax x y = (if flt x y then y else x)"

text \<open>\<open>Series.max()\<close> skips NaN and is NaN when nothing is left.\<close>

definition series_max :: "fval list \<Rightarrow> fval" where
  "series_max xs = (case nonmissing xs of [] \<Rightarrow> NaN | y # ys \<Rightarrow> foldl fmax y ys)"

text \<open>The methods of a numpy array skip nothing and use \<open>ddof = 0\<close>.\<close>

definition np_mean :: "fval list \<Rightarrow> fval" where
  "np_mean xs = fdiv (fsum xs) (Fin (real (length xs)))"

definition np_std :: "fval list \<Rightarrow> fval" where
  "np_std xs = (let m = np_mean xs in fsqrt (np_mean (map (\<lambda>v. fmul (fsub v m) (fsub v m)) xs)))"

section \<open>Daily beta analysis (\<open>models.py\<close>, \<open>forensics.py\<close>)\<close>

text \<open>
  The parquet directory is a store from a ticker's file stem to the Close column of its
  newest daily file.  The regression routine (\<open>scipy.stats.linregress\<close>, returning the
  slope or raising) is library code and a parameter of the functions below.
\<close>

type_synonym data_store = "string \<Rightarrow> frame option"
type_synonym regression = "fval list \<Rightarrow> fval list \<Rightarrow> py_error + fval"

definition load_daily_data :: "data_store \<Rightarrow> string \<Rightarrow> py_error + frame" where
  "load_daily_data store ticker =
     (let safe_ticker = filter (\<lambda>c. c \<noteq> CHR ''='') ticker in
      case store safe_ticker of None \<Rightarrow> Inl FileNotFoundError | Some df \<Rightarrow> Inr df)"

definition calculate_beta :: "regression \<Rightarrow> series \<Rightarrow> series \<Rightarrow> py_error + fval" where
  "calculate_beta linregress asset_returns market_returns =
     (let common_idx = intersection (index asset_returns) (index market_returns) in
      if length common_idx < 30 then Inr NaN
      else case loc asset_returns common_idx of Inl e \<Rightarrow> Inl e | Inr y \<Rightarrow>
           (case loc market_returns common_idx of Inl e \<Rightarrow> Inl e | Inr x \<Rightarrow>
             linregress (map snd x) (map snd y)))"

definition calculate_z_score :: "fval \<Rightarrow> fval list \<Rightarrow> fval" where
  "calculate_z_score return_val history =
     (let mu = series_mean history; sigma = series_std history in
      if feq sigma (Fin 0) then NaN else fdiv (fsub return_val mu) sigma)"

record beta_result =
  ticker :: string
  benchmark :: string
  beta :: fval
  event_return :: fval
  expected_return :: fval
  abnormal_return :: fval
  z_score :: fval

text \<open>The event date 2026-01-02 is day 20455 after 1970-01-01.\<close>

definition event_date :: int where
  "event_date = 20455"

text \<open>
  The event-day lookup inside the \<open>try\<close> block: no row on the event date gives "no
  result"; so does the IndexError that the log line \<open>index[0]\<close> raises on an empty series,
  which the \<open>except IndexError\<close> clause turns into the same \<open>return None\<close>.
\<close>

definition event_day_return :: "series \<Rightarrow> fval option" where
  "event_day_return rets =
     (let event_mask = map (\<lambda>(t, v). date_of t = event_date) rets in
      if True \<notin> set event_mask then None
      else case iloc_first (select event_mask rets) of
             Inl e \<Rightarrow> None
           | Inr (t, v) \<Rightarrow> Some v)"

definition run_beta_analysis ::
  "data_store \<Rightarrow> regression \<Rightarrow> string \<Rightarrow> string \<Rightarrow> py_error + beta_result option" where
  "run_beta_analysis store linregress target_ticker market_ticker =
     (case load_daily_data store target_ticker of Inl e \<Rightarrow> Inr None | Inr target_close \<Rightarrow>
      (case load_daily_data store market_ticker of Inl e \<Rightarrow> Inr None | Inr market_close \<Rightarrow>
      let target_rets = dropna (pct_change target_close);
          market_rets = dropna (pct_change market_close);
          history_mask = map (\<lambda>(t, v). date_of t < event_date) target_rets;
          target_hist = select history_mask target_rets
      in
      (case mask_select history_mask market_rets of Inl e \<Rightarrow> Inl e | Inr market_hist \<Rightarrow>
      (case calculate_beta linregress target_hist market_hist of Inl e \<Rightarrow> Inl e | Inr b \<Rightarrow>
      (case event_day_return target_rets of None \<Rightarrow> Inr None | Some target_event_ret \<Rightarrow>
      (case event_day_return market_rets of None \<Rightarrow> Inr None | Some market_event_ret \<Rightarrow>
      let expected_ret = fmul b market_event_ret;
          abnormal_ret = fsub target_event_ret expected_ret;
          residuals = series_binop fsub target_hist (scale b market_hist);
          residual_std = series_std (map snd residuals);
          z = fdiv abnormal_ret residual_std
      in Inr (Some \<lparr>ticker = target_ticker, benchmark = market_ticker, beta = b,
                     event_return = target_event_ret, expected_return = expected_ret,
                     abnormal_return = abnormal_ret, z_score = z\<rparr>)))))))"

text \<open>
  The supply-chain test of \<open>forensics.py\<close>: a loop over tickers outside any \<open>try\<close>, which
  prints a conclusion for every ticker that has a result.
\<close>

datatype conclusion = Possible_leak | No_leak

definition beta_conclusion :: "beta_result \<Rightarrow> conclusion" where
  "beta_conclusion res =
     (if fgt (fabs (z_score res)) (Fin (196 / 100)) then Possible_leak else No_leak)"

fun beta_batch ::
  "data_store \<Rightarrow> regression \<Rightarrow> string \<Rightarrow> string list \<Rightarrow> py_error + (string \<times> conclusion) list" where
  "beta_batch store linregress bm [] = Inr []"
| "beta_batch store linregress bm (t # ts) =
     (case run_beta_analysis store linregress t bm of
        Inl e \<Rightarrow> Inl e
      | Inr res \<Rightarrow>
          (case beta_batch store linregress bm ts of
             Inl e \<Rightarrow> Inl e
           | Inr out \<Rightarrow> Inr ((case res of None \<Rightarrow> [] | Some r \<Rightarrow> [(t, beta_conclusion r)]) @ out)))"

definition supply_chain_test :: "data_store \<Rightarrow> regression \<Rightarrow> py_error + (string \<times> conclusion) list" where
  "supply_chain_test store linregress = beta_batch store linregress ''XLE'' [''HAL'', ''SLB'']"

text \<open>
  A regression routine to run the analysis with: the least-squares slope as
  \<open>linregress\<close> computes it, \<open>ssxym / ssxm\<close> from the biased covariance of \<open>x\<close> and \<open>y\<close>.
\<close>

definition ols_slope :: regression where
  "ols_slope x y =
     (let xm = np_mean x; ym = np_mean y;
          ssxm = np_mean (map (\<lambda>a. fmul (fsub a xm) (fsub a xm)) x);
          ssxym = np_mean (map (\<lambda>(a, b). fmul (fsub a xm) (fsub b ym)) (zip x y))
      in Inr (fdiv ssxym ssxm))"

section \<open>Intraday factor model (\<open>factor_model.py\<close>)\<close>

text \<open>
  \<open>load_5m_data\<close> after the files of a ticker have been read and concatenated: duplicate
  labels dropped (first kept), sorted, restricted to regular trading hours 09:30 to 16:00.
  Timestamps are wall-clock times of the session timezone already, so the timezone
  normalisation changes nothing here.  No rows at all is FileNotFoundError.
\<close>

definition rth_open :: int where
  "rth_open = 34200"

definition rth_close :: int where
  "rth_close = 57600"

definition fm_load_5m_data :: "frame \<Rightarrow> py_error + frame" where
  "fm_load_5m_data combined_df =
     (if combined_df = [] then Inl FileNotFoundError
      else Inr (between_time rth_open rth_close (sort_index (drop_duplicated combined_df))))"

text \<open>Alignment of the three instruments to the intersection of their indexes.\<close>

definition fm_align :: "frame \<Rightarrow> frame \<Rightarrow> frame \<Rightarrow> py_error + (frame \<times> frame \<times> frame)" where
  "fm_align xle spy oil =
     (let common_idx = intersection (intersection (index xle) (index spy)) (index oil) in
      case loc xle common_idx of Inl e \<Rightarrow> Inl e | Inr xle' \<Rightarrow>
      (case loc spy common_idx of Inl e \<Rightarrow> Inl e | Inr spy' \<Rightarrow>
      (case loc oil common_idx of Inl e \<Rightarrow> Inl e | Inr oil' \<Rightarrow> Inr (xle', spy', oil'))))"

text \<open>
  The fit of \<open>statsmodels\<close> is library code and a parameter: from the target returns and
  the table of the two factor returns it gives the coefficients and the in-sample
  residuals, or raises.
\<close>

record ols_fit =
  const :: fval
  beta_spy :: fval
  beta_oil :: fval
  resid :: "fval list"

type_synonym ols_routine = "series \<Rightarrow> (timestamp \<times> fval \<times> fval) list \<Rightarrow> py_error + ols_fit"

text \<open>
  A table of two columns built from two Series aligns them on their labels: equal indexes
  are kept as they are, otherwise the rows are the sorted union of the labels, and a label
  missing in one series gives NaN there.  (The series that reach it come from the loader
  and carry no duplicate labels; a label is looked up by its first row.)
\<close>

definition lookup :: "series \<Rightarrow> timestamp \<Rightarrow> fval" where
  "lookup s t = (case map_of s t of None \<Rightarrow> NaN | Some v \<Rightarrow> v)"

definition union_index :: "timestamp list \<Rightarrow> timestamp list \<Rightarrow> timestamp list" where
  "union_index a b = (if a = b then a else sort (remdups (a @ b)))"

definition data_frame :: "series \<Rightarrow> series \<Rightarrow> (timestamp \<times> fval \<times> fval) list" where
  "data_frame a b = map (\<lambda>t. (t, lookup a t, lookup b t)) (union_index (index a) (index b))"

definition predict :: "ols_fit \<Rightarrow> (timestamp \<times> fval \<times> fval) list \<Rightarrow> series" where
  "predict m X =
     map (\<lambda>(t, sp, oi). (t, fadd (fadd (const m) (fmul (beta_spy m) sp)) (fmul (beta_oil m) oi))) X"

text \<open>The training cutoff 2026-01-01 00:00 and the sub-window boundary 2026-01-02 14:55.\<close>

definition train_cutoff :: timestamp where
  "train_cutoff = 20454 * 86400"

definition leak_start :: timestamp where
  "leak_start = 20455 * 86400 + 53700"

record leak_report =
  car_at_leak :: fval
  car_at_close :: fval
  surge :: fval
  unexplained_alpha :: bool

record car_report =
  total_car_value :: fval
  car_std :: fval
  z_score_car :: fval
  post_leak :: "leak_report option"

text \<open>
  The event-day part of \<open>run_factor_model\<close>: the compounded abnormal return, its
  approximate standard deviation and z-score, and, when there are bars at or after the
  boundary, the report on the sub-window.
\<close>

definition sub_window :: "timestamp \<Rightarrow> series \<Rightarrow> py_error + leak_report option" where
  "sub_window boundary cum =
     (let post = filter (\<lambda>(t, v). boundary \<le> t) cum in
      if post = [] then Inr None
      else case iloc_last (filter (\<lambda>(t, v). t < boundary) cum) of Inl e \<Rightarrow> Inl e | Inr (t0, at_leak) \<Rightarrow>
           (case iloc_last cum of Inl e \<Rightarrow> Inl e | Inr (t1, at_close) \<Rightarrow>
           let diff = fsub at_close at_leak in
           Inr (Some \<lparr>car_at_leak = at_leak, car_at_close = at_close, surge = diff,
                       unexplained_alpha = fgt diff (Fin (1 / 100))\<rparr>)))"

definition event_day_analysis :: "fval \<Rightarrow> series \<Rightarrow> py_error + car_report" where
  "event_day_analysis resid_std residuals =
     (let cum = cum_residuals residuals in
      case total_car residuals of Inl e \<Rightarrow> Inl e | Inr car \<Rightarrow>
      let n_bars = length residuals;
          cstd = fmul (fsqrt (Fin (real n_bars))) resid_std;
          z = fdiv car cstd
      in (case sub_window leak_start cum of Inl e \<Rightarrow> Inl e | Inr pl \<Rightarrow>
         Inr \<lparr>total_car_value = car, car_std = cstd, z_score_car = z, post_leak = pl\<rparr>))"

text \<open>
  The whole run.  Nothing is returned or raised: every exception is caught and printed, so
  the outcome is what the run prints.
\<close>

datatype fm_outcome =
  Insufficient_training_data
| Error_printed py_error
| Event_day car_report

definition fm_returns :: "frame \<Rightarrow> frame \<Rightarrow> frame \<Rightarrow> py_error + (series \<times> series \<times> series)" where
  "fm_returns xle_files spy_files oil_files =
     (case fm_load_5m_data xle_files of Inl e \<Rightarrow> Inl e | Inr xle \<Rightarrow>
      (case fm_load_5m_data spy_files of Inl e \<Rightarrow> Inl e | Inr spy \<Rightarrow>
      (case fm_load_5m_data oil_files of Inl e \<Rightarrow> Inl e | Inr oil \<Rightarrow>
      (case fm_align xle spy oil of Inl e \<Rightarrow> Inl e | Inr (xle', spy', oil') \<Rightarrow>
        Inr (dropna (pct_change xle'), dropna (pct_change spy'), dropna (pct_change oil'))))))"

definition fm_training :: "series \<Rightarrow> series \<Rightarrow> series \<Rightarrow> py_error + (series \<times> (timestamp \<times> fval \<times> fval) list)" where
  "fm_training xle_ret spy_ret oil_ret =
     (let train_mask = map (\<lambda>(t, v). t < train_cutoff) xle_ret in
      case mask_select train_mask spy_ret of Inl e \<Rightarrow> Inl e | Inr spy_train \<Rightarrow>
      (case mask_select train_mask oil_ret of Inl e \<Rightarrow> Inl e | Inr oil_train \<Rightarrow>
        Inr (select train_mask xle_ret, data_frame spy_train oil_train)))"

definition fm_event :: "ols_fit \<Rightarrow> series \<Rightarrow> series \<Rightarrow> series \<Rightarrow> py_error + car_report" where
  "fm_event model xle_ret spy_ret oil_ret =
     (let test_mask = map (\<lambda>(t, v). date_of t = event_date) xle_ret;
          resid_std = series_std (resid model);
          Y_test = select test_mask xle_ret
      in case mask_select test_mask spy_ret of Inl e \<Rightarrow> Inl e | Inr spy_test \<Rightarrow>
         (case mask_select test_mask oil_ret of Inl e \<Rightarrow> Inl e | Inr oil_test \<Rightarrow>
         let predicted_xle = predict model (data_frame spy_test oil_test);
             residuals = series_binop fsub Y_test predicted_xle
         in event_day_analysis resid_std residuals))"

definition run_factor_model :: "ols_routine \<Rightarrow> frame \<Rightarrow> frame \<Rightarrow> frame \<Rightarrow> fm_outcome" where
  "run_factor_model ols xle_files spy_files oil_files =
     (case fm_returns xle_files spy_files oil_files of Inl e \<Rightarrow> Error_printed e
      | Inr (xle_ret, spy_ret, oil_ret) \<Rightarrow>
      (case fm_training xle_ret spy_ret oil_ret of Inl e \<Rightarrow> Error_printed e
      | Inr (Y_train, X_train) \<Rightarrow>
      if length Y_train < 100 then Insufficient_training_data
      else (case ols Y_train X_train of Inl e \<Rightarrow> Error_printed e | Inr model \<Rightarrow>
           (case fm_event model xle_ret spy_ret oil_ret of
             Inl e \<Rightarrow> Error_printed e
           | Inr report \<Rightarrow> Event_day report))))"

section \<open>Spread placebo test (\<open>spread_control.py\<close>)\<close>

text \<open>Here \<open>load_5m_data\<close> answers \<open>None\<close> when no rows were read.\<close>

definition sc_load_5m_data :: "frame \<Rightarrow> frame option" where
  "sc_load_5m_data combined_df =
     (if combined_df = [] then None
      else Some (between_time rth_open rth_close (sort_index (drop_duplicated combined_df))))"

definition sc_align :: "frame \<Rightarrow> frame \<Rightarrow> py_error + (frame \<times> frame)" where
  "sc_align xle oil =
     (let common_idx = intersection (index xle) (index oil) in
      case loc xle common_idx of Inl e \<Rightarrow> Inl e | Inr xle' \<Rightarrow>
      (case loc oil common_idx of Inl e \<Rightarrow> Inl e | Inr oil' \<Rightarrow> Inr (xle', oil')))"

text \<open>A boolean array of the wrong length on a table raises ValueError.\<close>

definition df_mask_select :: "bool list \<Rightarrow> frame \<Rightarrow> py_error + frame" where
  "df_mask_select msk df = (if length msk \<noteq> length df then Inl ValueError else Inr (select msk df))"

text \<open>
  One baseline day that passed the bar count: both closes restricted to the common labels,
  divided by their first value, and subtracted.
\<close>

definition normalize_to_open :: "real \<Rightarrow> frame \<Rightarrow> series" where
  "normalize_to_open c0 day = map (\<lambda>(t, c). (t, fdiv (Fin c) (Fin c0))) day"

definition day_spread :: "frame \<Rightarrow> frame \<Rightarrow> timestamp list \<Rightarrow> py_error + series" where
  "day_spread xle_day oil_day common =
     (case loc xle_day common of Inl e \<Rightarrow> Inl e | Inr xle_c \<Rightarrow>
      (case loc oil_day common of Inl e \<Rightarrow> Inl e | Inr oil_c \<Rightarrow>
      (case iloc_first xle_c of Inl e \<Rightarrow> Inl e | Inr (tx, x0) \<Rightarrow>
      (case iloc_first oil_c of Inl e \<Rightarrow> Inl e | Inr (ty, y0) \<Rightarrow>
        Inr (series_binop fsub (normalize_to_open x0 xle_c) (normalize_to_open y0 oil_c))))))"

text \<open>The body of the loop over baseline dates: \<open>None\<close> is \<open>continue\<close>.\<close>

definition day_max_spread :: "frame \<Rightarrow> frame \<Rightarrow> int \<Rightarrow> (py_error + fval) option" where
  "day_max_spread xle_base oil_base d =
     (let xle_day = filter (\<lambda>(t, c). date_of t = d) xle_base;
          oil_day = filter (\<lambda>(t, c). date_of t = d) oil_base
      in if xle_day = [] \<or> oil_day = [] then None
         else let common = intersection (index xle_day) (index oil_day) in
              if length common < 30 then None
              else Some (case day_spread xle_day oil_day common of
                           Inl e \<Rightarrow> Inl e
                         | Inr spread \<Rightarrow> Inr (series_max (map snd spread))))"

fun spread_loop :: "frame \<Rightarrow> frame \<Rightarrow> int list \<Rightarrow> py_error + fval list" where
  "spread_loop xle_base oil_base [] = Inr []"
| "spread_loop xle_base oil_base (d # ds) =
     (case day_max_spread xle_base oil_base d of
        None \<Rightarrow> spread_loop xle_base oil_base ds
      | Some (Inl e) \<Rightarrow> Inl e
      | Some (Inr max_s) \<Rightarrow>
          (case spread_loop xle_base oil_base ds of
             Inl e \<Rightarrow> Inl e
           | Inr later \<Rightarrow> Inr (max_s # later)))"

text \<open>The baseline sample in percent, and the rank of the event value in it.\<close>

definition daily_max_spreads :: "frame \<Rightarrow> frame \<Rightarrow> py_error + fval list" where
  "daily_max_spreads xle oil =
     (let baseline_mask = map (\<lambda>(t, c). t < train_cutoff) xle;
          xle_base = select baseline_mask xle
      in case df_mask_select baseline_mask oil of Inl e \<Rightarrow> Inl e | Inr oil_base \<Rightarrow>
         let unique_dates = sort (remdups (map (\<lambda>(t, c). date_of t) xle_base)) in
         (case spread_loop xle_base oil_base unique_dates of
           Inl e \<Rightarrow> Inl e
         | Inr ms \<Rightarrow> Inr (map (\<lambda>v. fmul v (Fin 100)) ms)))"

definition event_val :: fval where
  "event_val = Fin (194 / 100)"

definition percentile_rank :: "fval list \<Rightarrow> fval \<Rightarrow> fval" where
  "percentile_rank sample v =
     fmul (np_mean (map (\<lambda>x. if flt x v then Fin 1 else Fin 0) sample)) (Fin 100)"

record placebo_report =
  sample :: "fval list"
  sample_mean :: fval
  sample_std :: fval
  percentile :: fval

definition run_spread_placebo :: "frame \<Rightarrow> frame \<Rightarrow> py_error + placebo_report option" where
  "run_spread_placebo xle_files oil_files =
     (case sc_load_5m_data xle_files of None \<Rightarrow> Inr None | Some xle \<Rightarrow>
      (case sc_load_5m_data oil_files of None \<Rightarrow> Inr None | Some oil \<Rightarrow>
      (case sc_align xle oil of Inl e \<Rightarrow> Inl e | Inr (xle', oil') \<Rightarrow>
      (case daily_max_spreads xle' oil' of Inl e \<Rightarrow> Inl e | Inr spreads \<Rightarrow>
        Inr (Some \<lparr>sample = spreads, sample_mean = np_mean spreads, sample_std = np_std spreads,
                    percentile = percentile_rank spreads event_val\<rparr>)))))"

section \<open>Example data\<close>

text \<open>
  Daily closes for the runs evaluated below; day 20455 is the event date.  In the first
  store the benchmark file has no bar on the event date.
\<close>

definition gap_store :: data_store where
  "gap_store = map_of
     [(''HAL'', [(1767052800, 100), (1767139200, 101), (1767312000, 105)]),
      (''XLE'', [(1767052800, 50), (1767139200, 51)])]"

text \<open>
  In the next store both files have a bar on the event date, and the benchmark file starts
  one day later than the target file.
\<close>

definition late_store :: data_store where
  "late_store = map_of
     [(''HAL'', [(1767052800, 100), (1767139200, 101), (1767312000, 105)]),
      (''XLE'', [(1767139200, 51), (1767312000, 52)])]"

text \<open>Three bars each, so two days of history.\<close>

definition short_store :: data_store where
  "short_store = map_of
     [(''HAL'', [(1767052800, 100), (1767139200, 110), (1767312000, 121)]),
      (''XLE'', [(1767052800, 50), (1767139200, 51), (1767312000, 102)])]"

text \<open>
  Thirty days of history in which the target does not move while the benchmark does, and
  a target move of 5 percent on the event date.
\<close>

definition flat_target :: frame where
  "flat_target =
    [(1764633600, 100), (1764720000, 100), (1764806400, 100), (1764892800, 100),
     (1764979200, 100), (1765065600, 100), (1765152000, 100), (1765238400, 100),
     (1765324800, 100), (1765411200, 100), (1765497600, 100), (1765584000, 100),
     (1765670400, 100), (1765756800, 100), (1765843200, 100), (1765929600, 100),
     (1766016000, 100), (1766102400, 100), (1766188800, 100), (1766275200, 100),
     (1766361600, 100), (1766448000, 100), (1766534400, 100), (1766620800, 100),
     (1766707200, 100), (1766793600, 100), (1766880000, 100), (1766966400, 100),
     (1767052800, 100), (1767139200, 100), (1767225600, 100), (1767312000, 105)]"

definition wavy_market :: frame where
  "wavy_market =
    [(1764633600, 50), (1764720000, 51), (1764806400, 50), (1764892800, 51),
     (1764979200, 50), (1765065600, 51), (1765152000, 50), (1765238400, 51),
     (1765324800, 50), (1765411200, 51), (1765497600, 50), (1765584000, 51),
     (1765670400, 50), (1765756800, 51), (1765843200, 50), (1765929600, 51),
     (1766016000, 50), (1766102400, 51), (1766188800, 50), (1766275200, 51),
     (1766361600, 50), (1766448000, 51), (1766534400, 50), (1766620800, 51),
     (1766707200, 50), (1766793600, 51), (1766880000, 50), (1766966400, 51),
     (1767052800, 50), (1767139200, 51), (1767225600, 50), (1767312000, 52)]"

definition flat_store :: data_store where
  "flat_store = map_of [(''HAL'', flat_target), (''XLE'', wavy_market)]"

text \<open>
  Thirty days of history in which the target's return is the benchmark's return plus
  7, -7, 3 and -3 percent on four quiet days of the benchmark; on the event date the
  benchmark gains 2 percent and the target 7 percent.
\<close>

definition tracking_target :: frame where
  "tracking_target =
    [(1764633600, 100), (1764720000, 110), (1764806400, 99),
     (1764892800, 10593 / 100), (1764979200, 985149 / 10000), (1765065600, 101470347 / 1000000),
     (1765152000, 9842623659 / 100000000), (1765238400, 9842623659 / 100000000), (1765324800, 9842623659 / 100000000),
     (1765411200, 9842623659 / 100000000), (1765497600, 9842623659 / 100000000), (1765584000, 9842623659 / 100000000),
     (1765670400, 9842623659 / 100000000), (1765756800, 9842623659 / 100000000), (1765843200, 9842623659 / 100000000),
     (1765929600, 9842623659 / 100000000), (1766016000, 9842623659 / 100000000), (1766102400, 9842623659 / 100000000),
     (1766188800, 9842623659 / 100000000), (1766275200, 9842623659 / 100000000), (1766361600, 9842623659 / 100000000),
     (1766448000, 9842623659 / 100000000), (1766534400, 9842623659 / 100000000), (1766620800, 9842623659 / 100000000),
     (1766707200, 9842623659 / 100000000), (1766793600, 9842623659 / 100000000), (1766880000, 9842623659 / 100000000),
     (1766966400, 9842623659 / 100000000), (1767052800, 9842623659 / 100000000), (1767139200, 9842623659 / 100000000),
     (1767225600, 9842623659 / 100000000), (1767312000, 1053160731513 / 10000000000)]"

definition tracking_market :: frame where
  "tracking_market =
    [(1764633600, 50), (1764720000, 55), (1764806400, 99 / 2),
     (1764892800, 99 / 2), (1764979200, 99 / 2), (1765065600, 99 / 2),
     (1765152000, 99 / 2), (1765238400, 99 / 2), (1765324800, 99 / 2),
     (1765411200, 99 / 2), (1765497600, 99 / 2), (1765584000, 99 / 2),
     (1765670400, 99 / 2), (1765756800, 99 / 2), (1765843200, 99 / 2),
     (1765929600, 99 / 2), (1766016000, 99 / 2), (1766102400, 99 / 2),
     (1766188800, 99 / 2), (1766275200, 99 / 2), (1766361600, 99 / 2),
     (1766448000, 99 / 2), (1766534400, 99 / 2), (1766620800, 99 / 2),
     (1766707200, 99 / 2), (1766793600, 99 / 2), (1766880000, 99 / 2),
     (1766966400, 99 / 2), (1767052800, 99 / 2), (1767139200, 99 / 2),
     (1767225600, 99 / 2), (1767312000, 5049 / 100)]"

definition tracking_store :: data_store where
  "tracking_store = map_of [(''HAL'', tracking_target), (''XLE'', tracking_market)]"

text \<open>
  Thirty five-minute bars from 09:30 on 2025-12-30: the first instrument rises from 100 by
  one a bar, the second stays at 50.
\<close>

definition rising_xle :: frame where
  "rising_xle =
     [(1767087000, 100), (1767087300, 101), (1767087600, 102), (1767087900, 103),
      (1767088200, 104), (1767088500, 105), (1767088800, 106), (1767089100, 107),
      (1767089400, 108), (1767089700, 109), (1767090000, 110), (1767090300, 111),
      (1767090600, 112), (1767090900, 113), (1767091200, 114), (1767091500, 115),
      (1767091800, 116), (1767092100, 117), (1767092400, 118), (1767092700, 119),
      (1767093000, 120), (1767093300, 121), (1767093600, 122), (1767093900, 123),
      (1767094200, 124), (1767094500, 125), (1767094800, 126), (1767095100, 127),
      (1767095400, 128), (1767095700, 129)]"

definition steady_oil :: frame where
  "steady_oil =
     [(1767087000, 50), (1767087300, 50), (1767087600, 50), (1767087900, 50),
      (1767088200, 50), (1767088500, 50), (1767088800, 50), (1767089100, 50),
      (1767089400, 50), (1767089700, 50), (1767090000, 50), (1767090300, 50),
      (1767090600, 50), (1767090900, 50), (1767091200, 50), (1767091500, 50),
      (1767091800, 50), (1767092100, 50), (1767092400, 50), (1767092700, 50),
      (1767093000, 50), (1767093300, 50), (1767093600, 50), (1767093900, 50),
      (1767094200, 50), (1767094500, 50), (1767094800, 50), (1767095100, 50),
      (1767095400, 50), (1767095700, 50)]"

section \<open>Verified properties\<close>

subsection \<open>Auxiliary facts about positional access\<close>

lemma iloc_last_conv: "xs \<noteq> [] \<Longrightarrow> iloc_last xs = Inr (last xs)"
  by (induction xs rule: iloc_last.induct) auto

lemma iloc_first_conv: "xs \<noteq> [] \<Longrightarrow> iloc_first xs = Inr (hd xs)"
  by (cases xs) auto

lemma length_cumprod_from [simp]: "length (cumprod_from acc s) = length s"
  by (induction s arbitrary: acc) auto

lemma length_cum_residuals [simp]: "length (cum_residuals s) = length s"
  by (simp add: cum_residuals_def cumprod_def)

lemma length_fin_series [simp]: "length (fin_series xs) = length xs"
  by (simp add: fin_series_def)

subsection \<open>Cumulative abnormal return\<close>

lemma cumprod_from_fin_nth:
  "i < length xs \<Longrightarrow>
   cumprod_from (Fin a) (map (\<lambda>(t, v). (t, fadd (Fin 1) v)) (fin_series xs)) ! i
     = (fst (xs ! i), Fin (a * prod_list (map (\<lambda>(t, r). 1 + r) (take (Suc i) xs))))"
proof (induction xs arbitrary: a i)
  case Nil
  then show ?case by simp
next
  case (Cons x xs)
  obtain t r where x: "x = (t, r)" by (cases x)
  show ?case
  proof (cases i)
    case 0
    then show ?thesis by (simp add: x fin_series_def isna_def)
  next
    case (Suc j)
    with Cons.prems have "j < length xs" by simp
    from Cons.IH[OF this, of "a * (1 + r)"] show ?thesis
      by (simp add: x Suc fin_series_def isna_def algebra_simps)
  qed
qed

lemma cum_residuals_fin_nth:
  "i < length xs \<Longrightarrow>
   cum_residuals (fin_series xs) ! i
     = (fst (xs ! i), Fin (prod_list (map (\<lambda>(t, r). 1 + r) (take (Suc i) xs)) - 1))"
  using cumprod_from_fin_nth[of i xs 1]
  by (simp add: cum_residuals_def cumprod_def fsub_def fin_series_def)

lemma total_car_fin:
  assumes ne: "xs \<noteq> []"
  shows "total_car (fin_series xs) = Inr (Fin (prod_list (map (\<lambda>(t, r). 1 + r) xs) - 1))"
proof -
  from ne have n: "length xs - 1 < length xs" by (cases xs) auto
  have cne: "cum_residuals (fin_series xs) \<noteq> []"
    using ne by (metis length_cum_residuals length_fin_series length_0_conv)
  have "last (cum_residuals (fin_series xs)) = cum_residuals (fin_series xs) ! (length xs - 1)"
    using cne by (simp add: last_conv_nth)
  also have "\<dots> = (fst (xs ! (length xs - 1)),
      Fin (prod_list (map (\<lambda>(t, r). 1 + r) (take (Suc (length xs - 1)) xs)) - 1))"
    by (rule cum_residuals_fin_nth[OF n])
  finally show ?thesis using ne cne
    by (simp add: total_car_def iloc_last_conv)
qed

text \<open>
  Claim C1.  Over an event window of finite abnormal returns \<open>rs\<close>, the cumulative abnormal
  return reported at every query bar \<open>i\<close> is the compounded product of \<open>1 + abnormal\<close> over
  the bars from the window start up to bar \<open>i\<close>, minus one; the total CAR is that product
  over the whole window; and for every interior split point \<open>k\<close> the CARs of the two parts
  compound to the CAR of the whole window: \<open>(1 + CAR(a,b)) * (1 + CAR(b,c)) - 1 = CAR(a,c)\<close>,
  exactly.
\<close>

theorem car_compounding:
  assumes "0 < k" and "k < length rs"
  shows "(\<forall>i < length rs. snd (cum_residuals (fin_series rs) ! i)
             = Fin (prod_list (map (\<lambda>(t, r). 1 + r) (take (Suc i) rs)) - 1)) \<and>
         (\<exists>a b c.
           total_car (fin_series (take k rs)) = Inr (Fin a) \<and>
           total_car (fin_series (drop k rs)) = Inr (Fin b) \<and>
           total_car (fin_series rs) = Inr (Fin c) \<and>
           c = prod_list (map (\<lambda>(t, r). 1 + r) rs) - 1 \<and>
           (1 + a) * (1 + b) - 1 = c)"
proof -
  let ?g = "\<lambda>xs. prod_list (map (\<lambda>(t, r). 1 + r) xs)"
  have 1: "take k rs \<noteq> []" using assms by auto
  have 2: "drop k rs \<noteq> []" using assms by auto
  have 3: "rs \<noteq> []" using assms by auto
  have "?g rs = ?g (take k rs @ drop k rs)" by simp
  also have "\<dots> = ?g (take k rs) * ?g (drop k rs)" by (simp only: map_append prod_list.append)
  finally have split: "?g rs = ?g (take k rs) * ?g (drop k rs)" .
  have pointwise: "\<forall>i < length rs. snd (cum_residuals (fin_series rs) ! i)
             = Fin (?g (take (Suc i) rs) - 1)"
    by (simp add: cum_residuals_fin_nth)
  have "\<exists>a b c.
           total_car (fin_series (take k rs)) = Inr (Fin a) \<and>
           total_car (fin_series (drop k rs)) = Inr (Fin b) \<and>
           total_car (fin_series rs) = Inr (Fin c) \<and>
           c = ?g rs - 1 \<and> (1 + a) * (1 + b) - 1 = c"
    using total_car_fin[OF 1] total_car_fin[OF 2] total_car_fin[OF 3] split
    by simp
  with pointwise show ?thesis by blast
qed

text \<open>
  The window of two bars with abnormal return 10 percent each, split after the first bar:
  both parts have CAR 1/10 and the whole window has CAR 21/100, not the sum 2/10.
\<close>

theorem car_compounding_witness:
  "(0::nat) < 1 \<and> 1 < length [(0::int, 1/10::real), (300, 1/10)] \<and>
   total_car (fin_series (take 1 [(0, 1/10), (300, 1/10)])) = Inr (Fin (1/10)) \<and>
   total_car (fin_series (drop 1 [(0, 1/10), (300, 1/10)])) = Inr (Fin (1/10)) \<and>
   total_car (fin_series [(0, 1/10), (300, 1/10)]) = Inr (Fin (21/100)) \<and>
   (1 + 1/10) * (1 + 1/10) - 1 = (21/100 :: real) \<and> (21/100 :: real) \<noteq> 1/10 + 1/10"
  using car_compounding[of 1 "[(0, 1/10), (300, 1/10)]"]
  by (simp add: total_car_def cum_residuals_def cumprod_def fin_series_def fsub_def isna_def)

subsection \<open>Simple returns\<close>

lemma dropna_pct_from:
  "prev \<noteq> 0 \<Longrightarrow> \<forall>(t, c) \<in> set rest. c \<noteq> 0 \<Longrightarrow> dropna (pct_from prev rest) = pct_from prev rest"
  by (induction rest arbitrary: prev) (auto simp: dropna_def isna_def fsub_def)

lemma length_pct_from [simp]: "length (pct_from prev rest) = length rest"
  by (induction rest arbitrary: prev) auto

lemma pct_from_nth:
  "i < length rest \<Longrightarrow> \<forall>c \<in> set (prev # map snd rest). c \<noteq> 0 \<Longrightarrow>
   pct_from prev rest ! i =
     (fst (rest ! i), Fin ((prev # map snd rest) ! Suc i / (prev # map snd rest) ! i - 1))"
proof (induction rest arbitrary: prev i)
  case Nil
  then show ?case by simp
next
  case (Cons x rest)
  obtain t c where x: "x = (t, c)" by (cases x)
  show ?case
  proof (cases i)
    case 0
    with Cons.prems show ?thesis by (simp add: x fsub_def)
  next
    case (Suc j)
    with Cons.prems have j: "j < length rest" by simp
    from Cons.prems have "\<forall>c \<in> set (c # map snd rest). c \<noteq> 0" by (simp add: x)
    from Cons.IH[OF j this] show ?thesis by (simp add: x Suc)
  qed
qed

lemma cumprod_from_pct_from:
  "prev \<noteq> 0 \<Longrightarrow> \<forall>(t, c) \<in> set rest. c \<noteq> 0 \<Longrightarrow>
   cumprod_from (Fin a) (map (\<lambda>(t, v). (t, fadd (Fin 1) v)) (pct_from prev rest))
     = map (\<lambda>(t, c). (t, Fin (a * c / prev))) rest"
proof (induction rest arbitrary: a prev)
  case Nil
  then show ?case by simp
next
  case (Cons x rest)
  obtain t c where x: "x = (t, c)" by (cases x)
  from Cons.prems have c: "c \<noteq> 0" and rest: "\<forall>(t, c) \<in> set rest. c \<noteq> 0"
    by (auto simp: x)
  have "cumprod_from (Fin (a * c / prev)) (map (\<lambda>(t, v). (t, fadd (Fin 1) v)) (pct_from c rest))
     = map (\<lambda>(t, c'). (t, Fin (a * c / prev * c' / c))) rest"
    by (rule Cons.IH[OF c rest])
  also have "\<dots> = map (\<lambda>(t, c'). (t, Fin (a * c' / prev))) rest"
    using c by (auto simp: field_simps)
  finally show ?case
    using Cons.prems(1) by (simp add: x fsub_def isna_def field_simps)
qed

lemma simple_returns_Cons:
  assumes "c0 \<noteq> 0" "\<forall>(t, c) \<in> set rest. c \<noteq> 0"
  shows "simple_returns ((t0, c0) # rest) = pct_from c0 rest"
  using dropna_pct_from[of c0 rest] assms
  by (simp add: simple_returns_def dropna_def isna_def)

lemma cum_residuals_simple_returns:
  assumes "c0 \<noteq> 0" "\<forall>(t, c) \<in> set rest. c \<noteq> 0"
  shows "cum_residuals (simple_returns ((t0, c0) # rest))
           = map (\<lambda>(t, c). (t, Fin (c / c0 - 1))) rest"
  using cumprod_from_pct_from[of c0 rest 1] assms
  by (simp add: simple_returns_Cons cum_residuals_def cumprod_def fsub_def case_prod_unfold comp_def)

text \<open>
  Claim C2.  For a price series of \<open>N\<close> bars with positive closes, the simple-return series
  \<open>pct_change().dropna()\<close> has exactly \<open>N - 1\<close> entries, entry \<open>i\<close> is stamped with bar
  \<open>i + 1\<close> and equals \<open>close[i+1] / close[i] - 1\<close>; compounding all entries (for \<open>N \<ge> 2\<close>,
  so that there is an entry to compound) gives \<open>close[N-1] / close[0] - 1\<close>; and a series of
  length 0 or 1 yields the empty return series, no error.
\<close>

theorem simple_returns_correct:
  assumes pos: "\<forall>(t, c) \<in> set s. 0 < c"
  shows "length (simple_returns s) = length s - 1 \<and>
         (\<forall>i. Suc i < length s \<longrightarrow>
            simple_returns s ! i = (fst (s ! Suc i), Fin (snd (s ! Suc i) / snd (s ! i) - 1))) \<and>
         (2 \<le> length s \<longrightarrow>
            total_car (simple_returns s) = Inr (Fin (snd (last s) / snd (hd s) - 1))) \<and>
         (length s \<le> 1 \<longrightarrow> simple_returns s = [])"
proof (cases s)
  case Nil
  then show ?thesis by (simp add: simple_returns_def dropna_def)
next
  case (Cons x rest)
  obtain t0 c0 where x: "x = (t0, c0)" by (cases x)
  from pos have c0: "c0 \<noteq> 0" and rest: "\<forall>(t, c) \<in> set rest. c \<noteq> 0"
    by (auto simp: Cons x)
  have sr: "simple_returns s = pct_from c0 rest"
    unfolding Cons x by (rule simple_returns_Cons[OF c0 rest])
  have nz: "\<forall>c \<in> set (c0 # map snd rest). c \<noteq> 0"
    using c0 rest by auto
  have len: "length (simple_returns s) = length s - 1"
    unfolding sr by (simp add: Cons)
  have nth: "\<forall>i. Suc i < length s \<longrightarrow>
            simple_returns s ! i = (fst (s ! Suc i), Fin (snd (s ! Suc i) / snd (s ! i) - 1))"
  proof (intro allI impI)
    fix i assume "Suc i < length s"
    then have i: "i < length rest" by (simp add: Cons)
    have m: "\<And>j. j < length s \<Longrightarrow> (c0 # map snd rest) ! j = snd (s ! j)"
      by (metis Cons x list.simps(9) nth_map snd_conv)
    show "simple_returns s ! i = (fst (s ! Suc i), Fin (snd (s ! Suc i) / snd (s ! i) - 1))"
      unfolding sr using pct_from_nth[OF i nz] i m[of i] m[of "Suc i"] \<open>Suc i < length s\<close>
      by (simp add: Cons)
  qed
  have tot: "2 \<le> length s \<longrightarrow>
            total_car (simple_returns s) = Inr (Fin (snd (last s) / snd (hd s) - 1))"
  proof
    assume "2 \<le> length s"
    then have ne: "rest \<noteq> []" by (auto simp: Cons)
    have cr: "cum_residuals (simple_returns s) = map (\<lambda>(t, c). (t, Fin (c / c0 - 1))) rest"
      unfolding Cons x by (rule cum_residuals_simple_returns[OF c0 rest])
    show "total_car (simple_returns s) = Inr (Fin (snd (last s) / snd (hd s) - 1))"
      unfolding total_car_def cr using ne
      by (simp add: iloc_last_conv last_map Cons x case_prod_unfold)
  qed
  have small: "length s \<le> 1 \<longrightarrow> simple_returns s = []"
    unfolding sr by (simp add: Cons)
  from len nth tot small show ?thesis by blast
qed

theorem simple_returns_correct_witness:
  "list_all (\<lambda>(t, c). 0 < c) [(0::int, 100::real), (86400, 110), (172800, 99)] \<and>
   simple_returns [(0, 100), (86400, 110), (172800, 99)]
     = [(86400, Fin (1/10)), (172800, Fin (- 1/10))] \<and>
   total_car (simple_returns [(0, 100), (86400, 110), (172800, 99)]) = Inr (Fin (- 1/100)) \<and>
   simple_returns [(0, 100)] = [] \<and> simple_returns [] = []"
  using simple_returns_correct[of "[(0, 100), (86400, 110), (172800, 99)]"]
  by (simp add: simple_returns_def dropna_def isna_def fsub_def total_car_def
      cum_residuals_def cumprod_def)

subsection \<open>Percentile rank\<close>

lemma foldl_fadd_indicator:
  "foldl fadd (Fin a) (map (\<lambda>x. if P x then Fin 1 else Fin 0) xs)
     = Fin (a + real (length (filter P xs)))"
  by (induction xs arbitrary: a) (auto simp: algebra_simps)

lemma percentile_rank_count:
  "base \<noteq> [] \<Longrightarrow>
   percentile_rank base v
     = Fin (100 * real (length (filter (\<lambda>x. flt x v) base)) / real (length base))"
  using foldl_fadd_indicator[of 0 "\<lambda>x. flt x v" base]
  by (simp add: percentile_rank_def np_mean_def fsum_def)

lemma count_below_max:
  fixes xs :: "real list"
  assumes "xs \<noteq> []"
  shows "length (filter (\<lambda>x. x < Max (set xs)) xs)
           = length xs - length (filter (\<lambda>x. x = Max (set xs)) xs)"
proof -
  let ?M = "Max (set xs)"
  have "filter (\<lambda>x. \<not> x < ?M) xs = filter (\<lambda>x. x = ?M) xs"
    by (rule filter_cong) (auto simp: not_less intro: antisym)
  then have "length (filter (\<lambda>x. x < ?M) xs) + length (filter (\<lambda>x. x = ?M) xs) = length xs"
    using sum_length_filter_compl[of "\<lambda>x. x < ?M" xs] by simp
  then show ?thesis by simp
qed

text \<open>
  Claim C5, as the code has it.  For a non-empty baseline sample of \<open>n\<close> statistics the
  percentile rank of an event value \<open>v\<close> is 100 times the fraction of baseline days whose
  statistic is strictly less than \<open>v\<close>; a \<open>v\<close> that no baseline day is below gets 0; a \<open>v\<close>
  equal to the sample maximum gets \<open>100 * (n - k) / n\<close>, where \<open>k\<close> is the number of baseline
  days that attain the maximum, which is \<open>100 * (n - 1) / n\<close> when the maximum is attained
  once.
\<close>

theorem percentile_rank_strictly_less:
  assumes "base \<noteq> []" and "xs \<noteq> []"
  shows "percentile_rank base v
           = Fin (100 * real (length (filter (\<lambda>x. flt x v) base)) / real (length base)) \<and>
         ((\<forall>x \<in> set base. \<not> flt x v) \<longrightarrow> percentile_rank base v = Fin 0) \<and>
         percentile_rank (map Fin xs) (Fin (Max (set xs)))
           = Fin (100 * real (length xs - length (filter (\<lambda>x. x = Max (set xs)) xs)) / real (length xs)) \<and>
         (length (filter (\<lambda>x. x = Max (set xs)) xs) = 1 \<longrightarrow>
            percentile_rank (map Fin xs) (Fin (Max (set xs)))
              = Fin (100 * (real (length xs) - 1) / real (length xs)))"
proof -
  let ?M = "Max (set xs)"
  have a: "percentile_rank base v
           = Fin (100 * real (length (filter (\<lambda>x. flt x v) base)) / real (length base))"
    by (rule percentile_rank_count[OF assms(1)])
  have b: "(\<forall>x \<in> set base. \<not> flt x v) \<longrightarrow> percentile_rank base v = Fin 0"
  proof
    assume "\<forall>x \<in> set base. \<not> flt x v"
    then have "filter (\<lambda>x. flt x v) base = []" by (simp add: filter_empty_conv)
    with a show "percentile_rank base v = Fin 0" by simp
  qed
  have ne: "map Fin xs \<noteq> []" using assms(2) by simp
  have f: "length (filter (\<lambda>x. flt x (Fin ?M)) (map Fin xs)) = length (filter (\<lambda>x. x < ?M) xs)"
    by (simp add: filter_map comp_def)
  have c: "percentile_rank (map Fin xs) (Fin ?M)
           = Fin (100 * real (length xs - length (filter (\<lambda>x. x = ?M) xs)) / real (length xs))"
    using percentile_rank_count[OF ne, of "Fin ?M"] count_below_max[OF assms(2)] f by simp
  have d: "length (filter (\<lambda>x. x = ?M) xs) = 1 \<longrightarrow>
            percentile_rank (map Fin xs) (Fin ?M) = Fin (100 * (real (length xs) - 1) / real (length xs))"
  proof
    assume one: "length (filter (\<lambda>x. x = ?M) xs) = 1"
    have "1 \<le> length xs" using assms(2) by (cases xs) auto
    then have "real (length xs - 1) = real (length xs) - 1" by simp
    with c one show "percentile_rank (map Fin xs) (Fin ?M) = Fin (100 * (real (length xs) - 1) / real (length xs))"
      by simp
  qed
  from a b c d show ?thesis by blast
qed

text \<open>
  Four baseline days: an event value 3 has two days strictly below it (rank 50), an event
  value 1/2 has none (rank 0), and the unique maximum 4 of the second sample has rank 75.
\<close>

theorem percentile_rank_strictly_less_witness:
  "[Fin 1, Fin 3, Fin 2, Fin 3] \<noteq> [] \<and> [1, 3, 2, 4 :: real] \<noteq> [] \<and>
   percentile_rank [Fin 1, Fin 3, Fin 2, Fin 3] (Fin 3) = Fin 50 \<and>
   percentile_rank [Fin 1, Fin 3, Fin 2, Fin 3] (Fin (1/2)) = Fin 0 \<and>
   percentile_rank (map Fin [1, 3, 2, 4]) (Fin 4) = Fin 75"
  using percentile_rank_strictly_less[of "[Fin 1, Fin 3, Fin 2, Fin 3]" "[1, 3, 2, 4]" "Fin 3"]
    percentile_rank_strictly_less[of "[Fin 1, Fin 3, Fin 2, Fin 3]" "[1, 3, 2, 4]" "Fin (1/2)"]
  by (simp add: percentile_rank_def np_mean_def fsum_def)

text \<open>
  Claim C5 as stated fails when the maximum is tied: in the sample of two equal days the
  maximum is 1, no day is strictly below it, and its rank is 0, not \<open>100 * (2 - 1) / 2\<close>.
\<close>

theorem percentile_rank_tied_maximum:
  "series_max [Fin 1, Fin 1] = Fin 1 \<and>
   percentile_rank [Fin 1, Fin 1] (Fin 1) = Fin 0 \<and>
   percentile_rank [Fin 1, Fin 1] (Fin 1) \<noteq> Fin (100 * (2 - 1) / 2)"
  by (simp add: percentile_rank_def np_mean_def fsum_def series_max_def nonmissing_def isna_def fmax_def)

subsection \<open>Sub-window report\<close>

lemma index_cumprod_from [simp]: "map fst (cumprod_from acc s) = map fst s"
  by (induction s arbitrary: acc) auto

lemma index_cum_residuals [simp]: "map fst (cum_residuals s) = map fst s"
  by (simp add: cum_residuals_def cumprod_def comp_def case_prod_unfold)

lemma index_fin_series [simp]: "map fst (fin_series xs) = map fst xs"
  by (simp add: fin_series_def comp_def case_prod_unfold)

lemma sorted_filter_before:
  fixes xs :: "(timestamp \<times> 'a) list"
  assumes "sorted (map fst xs)"
  shows "filter (\<lambda>(t, v). t < b) xs = take (length (filter (\<lambda>(t, v). t < b) xs)) xs"
  using assms
proof (induction xs)
  case Nil
  then show ?case by simp
next
  case (Cons x xs)
  obtain t v where x: "x = (t, v)" by (cases x)
  show ?case
  proof (cases "t < b")
    case True
    with Cons show ?thesis by (simp add: x)
  next
    case False
    with Cons.prems have "\<forall>p \<in> set xs. \<not> fst p < b" by (auto simp: x)
    then have "filter (\<lambda>(t, v). t < b) xs = []"
      by (auto simp: filter_empty_conv)
    with False show ?thesis by (simp add: x)
  qed
qed

lemma sorted_filter_from:
  fixes xs :: "(timestamp \<times> 'a) list"
  assumes "sorted (map fst xs)"
  shows "filter (\<lambda>(t, v). b \<le> t) xs = drop (length (filter (\<lambda>(t, v). t < b) xs)) xs"
  using assms
proof (induction xs)
  case Nil
  then show ?case by simp
next
  case (Cons x xs)
  obtain t v where x: "x = (t, v)" by (cases x)
  show ?case
  proof (cases "t < b")
    case True
    with Cons show ?thesis by (simp add: x)
  next
    case False
    with Cons.prems have "\<forall>p \<in> set xs. \<not> fst p < b" by (auto simp: x)
    then have "filter (\<lambda>(t, v). t < b) xs = []" "filter (\<lambda>(t, v). b \<le> t) xs = xs"
      by (auto simp: filter_empty_conv filter_id_conv)
    with False show ?thesis by (simp add: x)
  qed
qed

lemma length_filter_fst:
  "length (filter (\<lambda>(t, v). P t) xs) = length (filter P (map fst xs))"
  by (induction xs) auto

lemma length_filter_index:
  "map fst xs = map fst ys \<Longrightarrow>
   length (filter (\<lambda>(t, v). P t) xs) = length (filter (\<lambda>(t, v). P t) ys)"
  by (simp add: length_filter_fst)

lemma last_take_nth: "0 < k \<Longrightarrow> k \<le> length xs \<Longrightarrow> last (take k xs) = xs ! (k - 1)"
proof -
  assume k: "0 < k" "k \<le> length xs"
  then have ne: "take k xs \<noteq> []" by auto
  have "last (take k xs) = take k xs ! (length (take k xs) - 1)"
    by (rule last_conv_nth[OF ne])
  also have "\<dots> = take k xs ! (k - 1)" using k by (simp add: min_def)
  also have "\<dots> = xs ! (k - 1)" using k by (intro nth_take) simp
  finally show ?thesis .
qed

text \<open>
  Claim C9.  For an event window in time order with bars before the boundary \<open>t*\<close> and bars
  at or after it, the engine reports \<open>CAR(start, t*)\<close>, the compounded abnormal return over
  the bars stamped before \<open>t*\<close>; \<open>CAR(start, end)\<close>, the compounded abnormal return over the
  whole window; and the unexplained surge \<open>CAR(end) - CAR(t*)\<close>.  The surge equals
  \<open>(1 + CAR(t*))\<close> times the compounded abnormal return of the bars from \<open>t*\<close> on, so it is
  made of the abnormal movement after \<open>t*\<close> alone.
\<close>

theorem sub_window_report:
  assumes srt: "sorted (map fst rs)"
    and before: "\<exists>(t, r) \<in> set rs. t < leak_start"
    and after: "\<exists>(t, r) \<in> set rs. leak_start \<le> t"
  shows "\<exists>rep lk.
           event_day_analysis sd (fin_series rs) = Inr rep \<and>
           post_leak rep = Some lk \<and>
           car_at_leak lk
             = Fin (prod_list (map (\<lambda>(t, r). 1 + r) (filter (\<lambda>(t, r). t < leak_start) rs)) - 1) \<and>
           car_at_close lk = Fin (prod_list (map (\<lambda>(t, r). 1 + r) rs) - 1) \<and>
           total_car_value rep = car_at_close lk \<and>
           surge lk = fsub (car_at_close lk) (car_at_leak lk) \<and>
           surge lk
             = Fin (prod_list (map (\<lambda>(t, r). 1 + r) (filter (\<lambda>(t, r). t < leak_start) rs))
                    * (prod_list (map (\<lambda>(t, r). 1 + r) (filter (\<lambda>(t, r). leak_start \<le> t) rs)) - 1))"
proof -
  let ?b = leak_start
  let ?g = "\<lambda>xs :: frame. prod_list (map (\<lambda>(t, r). 1 + r) xs)"
  let ?pre = "filter (\<lambda>(t, r). t < ?b) rs"
  let ?post = "filter (\<lambda>(t, r). ?b \<le> t) rs"
  let ?cum = "cum_residuals (fin_series rs)"
  let ?k = "length ?pre"
  have pre_ne: "?pre \<noteq> []" using before by (auto simp: filter_empty_conv)
  have post_ne: "?post \<noteq> []" using after by (auto simp: filter_empty_conv)
  have rs_ne: "rs \<noteq> []" using pre_ne by auto
  have k_pos: "0 < ?k" using pre_ne by simp
  have pre_take: "?pre = take ?k rs" by (rule sorted_filter_before[OF srt])
  have post_drop: "?post = drop ?k rs" by (rule sorted_filter_from[OF srt])
  have k_lt: "?k < length rs"
  proof (rule ccontr)
    assume "\<not> ?k < length rs"
    then have "drop ?k rs = []" by simp
    with post_drop post_ne show False by simp
  qed
  have idx: "map fst ?cum = map fst rs" by simp
  have csrt: "sorted (map fst ?cum)" using srt by simp
  have klen: "length (filter (\<lambda>(t, v). t < ?b) ?cum) = ?k"
    by (rule length_filter_index[OF idx])
  have cum_pre: "filter (\<lambda>(t, v). t < ?b) ?cum = take ?k ?cum"
    using sorted_filter_before[OF csrt, of ?b] klen by simp
  have cum_post: "filter (\<lambda>(t, v). ?b \<le> t) ?cum = drop ?k ?cum"
    using sorted_filter_from[OF csrt, of ?b] klen by simp
  have cum_post_ne: "filter (\<lambda>(t, v). ?b \<le> t) ?cum \<noteq> []"
    using k_lt by (simp add: cum_post)
  have cum_ne: "?cum \<noteq> []"
    using rs_ne by (metis length_cum_residuals length_fin_series length_0_conv)
  have take_ne: "take ?k ?cum \<noteq> []" using k_pos cum_ne by simp
  have "last (take ?k ?cum) = ?cum ! (?k - 1)"
    using k_pos k_lt by (intro last_take_nth) simp_all
  also have "\<dots> = (fst (rs ! (?k - 1)), Fin (?g (take (Suc (?k - 1)) rs) - 1))"
    using k_lt by (intro cum_residuals_fin_nth) simp
  finally have last_pre: "last (take ?k ?cum) = (fst (rs ! (?k - 1)), Fin (?g ?pre - 1))"
    using k_pos pre_take by simp
  have at_leak: "iloc_last (filter (\<lambda>(t, v). t < ?b) ?cum) = Inr (fst (rs ! (?k - 1)), Fin (?g ?pre - 1))"
    using take_ne last_pre by (simp add: cum_pre iloc_last_conv)
  have n1: "length rs - 1 < length rs" using rs_ne by (cases rs) auto
  have "last ?cum = ?cum ! (length rs - 1)" using cum_ne by (simp add: last_conv_nth)
  also have "\<dots> = (fst (rs ! (length rs - 1)), Fin (?g (take (Suc (length rs - 1)) rs) - 1))"
    by (rule cum_residuals_fin_nth[OF n1])
  finally have last_cum: "last ?cum = (fst (rs ! (length rs - 1)), Fin (?g rs - 1))"
    using rs_ne by simp
  have at_close: "iloc_last ?cum = Inr (fst (rs ! (length rs - 1)), Fin (?g rs - 1))"
    using cum_ne last_cum by (simp add: iloc_last_conv)
  have tot: "total_car (fin_series rs) = Inr (Fin (?g rs - 1))"
    by (rule total_car_fin[OF rs_ne])
  have "?g rs = ?g (take ?k rs @ drop ?k rs)" by simp
  also have "\<dots> = ?g ?pre * ?g ?post"
    unfolding map_append prod_list.append using pre_take post_drop by simp
  finally have split: "?g rs = ?g ?pre * ?g ?post" .
  have diff: "?g rs - 1 - (?g ?pre - 1) = ?g ?pre * (?g ?post - 1)"
  proof -
    have "\<And>a b c :: real. c = a * b \<Longrightarrow> c - 1 - (a - 1) = a * (b - 1)"
      by (simp add: algebra_simps)
    from this[OF split] show ?thesis .
  qed
  have sw: "sub_window ?b ?cum = Inr (Some \<lparr>car_at_leak = Fin (?g ?pre - 1),
        car_at_close = Fin (?g rs - 1), surge = Fin (?g ?pre * (?g ?post - 1)),
        unexplained_alpha = fgt (Fin (?g ?pre * (?g ?post - 1))) (Fin (1 / 100))\<rparr>)"
    using cum_post_ne at_leak at_close diff
    by (simp add: sub_window_def Let_def fsub_def)
  show ?thesis
    using tot sw diff by (simp add: event_day_analysis_def Let_def fsub_def)
qed


text \<open>
  Two bars of 10 percent abnormal return at 14:50 and 14:55 on the event day: the CAR at
  the boundary is 1/10, at the close 21/100, and the surge is 11/100.
\<close>

theorem sub_window_report_witness:
  "sorted (map fst [(1767365400 :: int, 1/10 :: real), (1767365700, 1/10)]) \<and>
   (\<exists>(t, r) \<in> set [(1767365400 :: int, 1/10 :: real), (1767365700, 1/10)]. t < leak_start) \<and>
   (\<exists>(t, r) \<in> set [(1767365400 :: int, 1/10 :: real), (1767365700, 1/10)]. leak_start \<le> t) \<and>
   map_sum id post_leak
     (event_day_analysis (Fin (1/100)) (fin_series [(1767365400, 1/10), (1767365700, 1/10)]))
     = Inr (Some \<lparr>car_at_leak = Fin (1/10), car_at_close = Fin (21/100), surge = Fin (11/100),
                   unexplained_alpha = True\<rparr>)"
  using sub_window_report[of "[(1767365400, 1/10), (1767365700, 1/10)]" "Fin (1/100)"]
  by (simp add: event_day_analysis_def sub_window_def total_car_def cum_residuals_def cumprod_def
      fin_series_def fsub_def isna_def leak_start_def fgt_def Let_def)

subsection \<open>Daily beta analysis\<close>

lemma select_map_filter: "select (map P xs) xs = filter P xs"
  by (induction xs) (auto simp: select_def)

lemma find_filter_conv: "find P xs = (case filter P xs of [] \<Rightarrow> None | x # _ \<Rightarrow> Some x)"
  by (induction xs) auto

lemma event_day_return_find:
  "event_day_return s = map_option snd (find (\<lambda>(t, v). date_of t = event_date) s)"
proof -
  let ?P = "\<lambda>(t :: timestamp, v :: fval). date_of t = event_date"
  have mem: "True \<in> set (map ?P s) \<longleftrightarrow> filter ?P s \<noteq> []"
    by (auto simp: filter_empty_conv)
  show ?thesis
  proof (cases "filter ?P s")
    case Nil
    with mem show ?thesis
      by (simp add: event_day_return_def Let_def find_filter_conv)
  next
    case (Cons x xs)
    with mem show ?thesis
      by (simp add: event_day_return_def Let_def find_filter_conv select_map_filter case_prod_unfold)
  qed
qed

lemma fmul_NaN_right [simp]: "fmul x NaN = NaN"
  by (cases x) auto

lemma fadd_NaN_right [simp]: "fadd x NaN = NaN"
  by (cases x) auto

lemma fdiv_NaN_right [simp]: "fdiv x NaN = NaN"
  by (cases x) auto

lemma index_scale [simp]: "index (scale k s) = index s"
  by (simp add: index_def scale_def comp_def case_prod_unfold)

lemma residuals_rowwise:
  assumes "index th = index mh"
  shows "map snd (series_binop fsub th (scale b mh))
           = map (\<lambda>(x, y). fsub x (fmul b y)) (zip (map snd th) (map snd mh))"
proof -
  from assms have len: "length th = length mh" by (metis index_def length_map)
  have "map snd (map (\<lambda>((t, x), (t', y)). (t, fsub x y)) (zip th (scale b mh)))
          = map (\<lambda>(x, y). fsub x (fmul b y)) (zip (map snd th) (map snd mh))"
    using len by (induction th mh rule: list_induct2) (auto simp: scale_def)
  with assms show ?thesis by (simp add: series_binop_def)
qed

lemma beta_conclusion_iff:
  "beta_conclusion r = Possible_leak \<longleftrightarrow> fgt (fabs (z_score r)) (Fin (196 / 100))"
  by (simp add: beta_conclusion_def)

text \<open>
  What a returned result holds.  Whenever the analysis of a target against a benchmark
  returns a result, the observed return is the target's return on the event date, the
  expected return is beta times the benchmark's return on the event date, the abnormal
  return is observed minus expected, the z-score is the abnormal return divided by the
  standard deviation of the historical residuals (\<open>target_i - beta * benchmark_i\<close> row by
  row when the two histories carry the same dates), and the conclusion of a possible leak
  is drawn exactly when \<open>|z| > 1.96\<close>.  A result is returned when both return series
  contain the event date, have the same length and the regression gives a slope.
\<close>

lemma returned_result_relations:
  assumes lt: "load_daily_data store tt = Inr tc"
      and lm: "load_daily_data store mt = Inr mc"
      and hm: "hm = map (\<lambda>(t, v). date_of t < event_date) (simple_returns tc)"
      and th: "th = select hm (simple_returns tc)"
  shows "(run_beta_analysis store lr tt mt = Inr (Some r) \<longrightarrow>
           (\<exists>t1 t2 mev mh.
              find (\<lambda>(t, v). date_of t = event_date) (simple_returns tc) = Some (t1, event_return r) \<and>
              find (\<lambda>(t, v). date_of t = event_date) (simple_returns mc) = Some (t2, mev) \<and>
              mask_select hm (simple_returns mc) = Inr mh \<and>
              calculate_beta lr th mh = Inr (beta r) \<and>
              expected_return r = fmul (beta r) mev \<and>
              abnormal_return r = fsub (event_return r) (expected_return r) \<and>
              z_score r = fdiv (abnormal_return r)
                 (series_std (map snd (series_binop fsub th (scale (beta r) mh)))) \<and>
              (index th = index mh \<longrightarrow>
                 map snd (series_binop fsub th (scale (beta r) mh))
                   = map (\<lambda>(x, y). fsub x (fmul (beta r) y)) (zip (map snd th) (map snd mh))) \<and>
              (beta_conclusion r = Possible_leak \<longleftrightarrow> fgt (fabs (z_score r)) (Fin (196 / 100))))) \<and>
         (length (simple_returns mc) = length (simple_returns tc) \<and>
          calculate_beta lr th (select hm (simple_returns mc)) = Inr b \<and>
          find (\<lambda>(t, v). date_of t = event_date) (simple_returns tc) = Some (t1, tev) \<and>
          find (\<lambda>(t, v). date_of t = event_date) (simple_returns mc) = Some (t2, mev) \<longrightarrow>
            (\<exists>r. run_beta_analysis store lr tt mt = Inr (Some r) \<and> beta r = b \<and> event_return r = tev))"
proof (intro conjI impI)
  assume res: "run_beta_analysis store lr tt mt = Inr (Some r)"
  from res obtain mh where mh: "mask_select hm (simple_returns mc) = Inr mh"
    by (auto simp: run_beta_analysis_def lt lm Let_def hm simple_returns_def split: sum.splits)
  from res mh obtain b where b: "calculate_beta lr th mh = Inr b"
    by (auto simp: run_beta_analysis_def lt lm Let_def hm th simple_returns_def split: sum.splits)
  from res mh b obtain tev where tev: "event_day_return (simple_returns tc) = Some tev"
    by (auto simp: run_beta_analysis_def lt lm Let_def hm th simple_returns_def split: option.splits)
  from res mh b tev obtain mev where mev: "event_day_return (simple_returns mc) = Some mev"
    by (auto simp: run_beta_analysis_def lt lm Let_def hm th simple_returns_def split: option.splits)
  from res mh b tev mev have r: "r = \<lparr>ticker = tt, benchmark = mt, beta = b,
        event_return = tev, expected_return = fmul b mev,
        abnormal_return = fsub tev (fmul b mev),
        z_score = fdiv (fsub tev (fmul b mev))
                    (series_std (map snd (series_binop fsub th (scale b mh))))\<rparr>"
    by (simp add: run_beta_analysis_def lt lm Let_def hm th simple_returns_def)
  from tev obtain t1 where t1: "find (\<lambda>(t, v). date_of t = event_date) (simple_returns tc) = Some (t1, tev)"
    by (auto simp: event_day_return_find)
  from mev obtain t2 where t2: "find (\<lambda>(t, v). date_of t = event_date) (simple_returns mc) = Some (t2, mev)"
    by (auto simp: event_day_return_find)
  show "\<exists>t1 t2 mev mh.
              find (\<lambda>(t, v). date_of t = event_date) (simple_returns tc) = Some (t1, event_return r) \<and>
              find (\<lambda>(t, v). date_of t = event_date) (simple_returns mc) = Some (t2, mev) \<and>
              mask_select hm (simple_returns mc) = Inr mh \<and>
              calculate_beta lr th mh = Inr (beta r) \<and>
              expected_return r = fmul (beta r) mev \<and>
              abnormal_return r = fsub (event_return r) (expected_return r) \<and>
              z_score r = fdiv (abnormal_return r)
                 (series_std (map snd (series_binop fsub th (scale (beta r) mh)))) \<and>
              (index th = index mh \<longrightarrow>
                 map snd (series_binop fsub th (scale (beta r) mh))
                   = map (\<lambda>(x, y). fsub x (fmul (beta r) y)) (zip (map snd th) (map snd mh))) \<and>
              (beta_conclusion r = Possible_leak \<longleftrightarrow> fgt (fabs (z_score r)) (Fin (196 / 100)))"
    using t1 t2 mh b by (intro exI[of _ t1] exI[of _ t2] exI[of _ mev] exI[of _ mh])
      (simp add: r beta_conclusion_iff residuals_rowwise)
next
  assume a: "length (simple_returns mc) = length (simple_returns tc) \<and>
          calculate_beta lr th (select hm (simple_returns mc)) = Inr b \<and>
          find (\<lambda>(t, v). date_of t = event_date) (simple_returns tc) = Some (t1, tev) \<and>
          find (\<lambda>(t, v). date_of t = event_date) (simple_returns mc) = Some (t2, mev)"
  then have mh: "mask_select hm (simple_returns mc) = Inr (select hm (simple_returns mc))"
    by (simp add: mask_select_def hm)
  from a have tev: "event_day_return (simple_returns tc) = Some tev"
    and mev: "event_day_return (simple_returns mc) = Some mev"
    by (simp_all add: event_day_return_find)
  from a mh tev mev
  show "\<exists>r. run_beta_analysis store lr tt mt = Inr (Some r) \<and> beta r = b \<and> event_return r = tev"
    by (simp add: run_beta_analysis_def lt lm Let_def hm[symmetric] th[symmetric] simple_returns_def[symmetric])
qed


lemma sqrt_2500: "sqrt (1 / 2500) = 1 / 50"
  by (rule real_sqrt_unique) (simp_all add: power2_eq_square)

lemmas run_beta_defs =
  run_beta_analysis_def load_daily_data_def Let_def dropna_def
  date_of_def event_date_def select_def mask_select_def calculate_beta_def
  event_day_return_def intersection_def index_def ols_slope_def np_mean_def fsum_def
  series_binop_def rows_at_def join_at_def scale_def series_std_def series_var_def
  nonmissing_def isna_def fsub_def

lemma tracking_run:
  "run_beta_analysis tracking_store ols_slope ''HAL'' ''XLE''
     = Inr (Some \<lparr>ticker = ''HAL'', benchmark = ''XLE'', beta = Fin 1,
                   event_return = Fin (7/100), expected_return = Fin (1/50),
                   abnormal_return = Fin (1/20), z_score = Fin (5/2)\<rparr>)"
  by (simp add: run_beta_defs tracking_store_def tracking_target_def tracking_market_def sqrt_2500)

text \<open>
  The tracking example: beta 1, expected return 2 percent, abnormal return 5 percent,
  residual standard deviation 2 percent, z-score 2.5, flagged.
\<close>

lemma tracking_conclusion:
  "map_sum id (map_option beta_conclusion) (run_beta_analysis tracking_store ols_slope ''HAL'' ''XLE'')
     = Inr (Some Possible_leak)"
  using tracking_run by (simp add: beta_conclusion_def fgt_def)

text \<open>
  Claim C3 at a failing input.  Both files hold the event date, and the benchmark's file
  starts one day after the target's, so both return series contain the event date and
  the benchmark's is one entry shorter.  The claim says the result then holds the expected
  and abnormal return and the z-score.  There is no result: the history mask of the
  target's two returns indexes the benchmark's single return, which raises IndexError
  outside the \<open>try\<close> block, whatever the regression routine.
\<close>

theorem event_date_present_raises:
  "event_day_return (simple_returns [(1767052800, 100), (1767139200, 101), (1767312000, 105)])
     = Some (Fin (4 / 101)) \<and>
   event_day_return (simple_returns [(1767139200, 51), (1767312000, 52)]) = Some (Fin (1 / 51)) \<and>
   run_beta_analysis late_store linregress ''HAL'' ''XLE'' = Inl IndexError"
  by (simp add: run_beta_analysis_def load_daily_data_def late_store_def Let_def dropna_def
      simple_returns_def isna_def fsub_def mask_select_def event_day_return_def select_def
      date_of_def event_date_def)

text \<open>
  Claim C4 at a failing input.  The target has bars on three days, the benchmark only on
  the first two, so the event date is absent from the benchmark's return index.  The
  history mask computed from the target's returns has two entries, the benchmark's return
  series one: indexing raises IndexError before the event-day lookup and outside the
  \<open>try\<close> block, and the loop over tickers is aborted.
\<close>

theorem missing_benchmark_date_raises:
  "event_day_return (simple_returns [(1767052800, 50), (1767139200, 51)]) = None \<and>
   run_beta_analysis gap_store ols_slope ''HAL'' ''XLE'' = Inl IndexError \<and>
   supply_chain_test gap_store ols_slope = Inl IndexError"
  by (simp add: run_beta_defs gap_store_def simple_returns_def supply_chain_test_def)


lemma calculate_z_score_zero_std:
  "series_std history = Fin 0 \<Longrightarrow> calculate_z_score x history = NaN"
  by (simp add: calculate_z_score_def Let_def)

text \<open>
  Claim C7 at a failing input.  With a target that did not move in the history window the
  residuals are all zero and so is their standard deviation; the division of the abnormal
  return 1/20 by it is not guarded as in \<open>calculate_z_score\<close> and gives plus infinity,
  which exceeds 1.96 in absolute value and is reported as a possible leak.
\<close>

theorem zero_residual_std_run:
  "run_beta_analysis flat_store ols_slope ''HAL'' ''XLE''
     = Inr (Some \<lparr>ticker = ''HAL'', benchmark = ''XLE'', beta = Fin 0,
                   event_return = Fin (1/20), expected_return = Fin 0,
                   abnormal_return = Fin (1/20), z_score = PInf\<rparr>) \<and>
   beta_conclusion \<lparr>ticker = ''HAL'', benchmark = ''XLE'', beta = Fin 0,
                   event_return = Fin (1/20), expected_return = Fin 0,
                   abnormal_return = Fin (1/20), z_score = PInf\<rparr> = Possible_leak"
  by (simp add: run_beta_defs flat_store_def flat_target_def wavy_market_def
      beta_conclusion_def fgt_def)


lemma run_beta_analysis_fields:
  assumes "run_beta_analysis store lr tt mt = Inr (Some r)"
  shows "\<exists>tev mev sd. expected_return r = fmul (beta r) mev \<and>
           abnormal_return r = fsub tev (expected_return r) \<and>
           z_score r = fdiv (abnormal_return r) sd"
  using assms
  by (auto simp: run_beta_analysis_def Let_def split: sum.splits option.splits)

text \<open>
  Claim C6, as the code has it.  Below the minimum sample size no regression is run and
  no error is raised: with fewer than 30 common days \<open>calculate_beta\<close> returns NaN; with
  fewer than 100 training bars the intraday run prints that the training data is
  insufficient and stops; and a result of the daily analysis whose beta is NaN has NaN
  for its expected return, abnormal return and z-score, and is never flagged.
\<close>

theorem below_minimum_sample:
  "(length (intersection (index a) (index m)) < 30 \<longrightarrow> calculate_beta lr a m = Inr NaN) \<and>
   (fm_returns xf sf cf = Inr (xr, sr, cr) \<and> fm_training xr sr cr = Inr (Y, X) \<and> length Y < 100 \<longrightarrow>
      run_factor_model ols xf sf cf = Insufficient_training_data) \<and>
   (run_beta_analysis store lr tt mt = Inr (Some r) \<and> beta r = NaN \<longrightarrow>
      expected_return r = NaN \<and> abnormal_return r = NaN \<and> z_score r = NaN \<and>
      beta_conclusion r = No_leak)"
proof (intro conjI impI)
  assume "length (intersection (index a) (index m)) < 30"
  then show "calculate_beta lr a m = Inr NaN"
    by (simp add: calculate_beta_def)
next
  assume "fm_returns xf sf cf = Inr (xr, sr, cr) \<and> fm_training xr sr cr = Inr (Y, X) \<and> length Y < 100"
  then show "run_factor_model ols xf sf cf = Insufficient_training_data"
    by (simp add: run_factor_model_def)
next
  assume a: "run_beta_analysis store lr tt mt = Inr (Some r) \<and> beta r = NaN"
  then obtain tev mev sd where f: "expected_return r = fmul (beta r) mev"
      "abnormal_return r = fsub tev (expected_return r)" "z_score r = fdiv (abnormal_return r) sd"
    using run_beta_analysis_fields by blast
  from a f have e: "expected_return r = NaN" by simp
  with f have ab: "abnormal_return r = NaN" by (simp add: fsub_def)
  with f have z: "z_score r = NaN" by simp
  from e show "expected_return r = NaN" .
  from ab show "abnormal_return r = NaN" .
  from z show "z_score r = NaN" .
  from z show "beta_conclusion r = No_leak" by (simp add: beta_conclusion_def fgt_def)
qed

text \<open>
  Claim C6 as stated fails: with no history at all \<open>calculate_beta\<close> returns the value NaN,
  and the daily analysis with two days of history returns a result record.
\<close>

theorem short_history_no_error:
  "calculate_beta ols_slope [] [] = Inr NaN \<and>
   run_beta_analysis short_store ols_slope ''HAL'' ''XLE''
     = Inr (Some \<lparr>ticker = ''HAL'', benchmark = ''XLE'', beta = NaN,
                   event_return = Fin (1/10), expected_return = NaN,
                   abnormal_return = NaN, z_score = NaN\<rparr>)"
  by (simp add: run_beta_defs short_store_def)

text \<open>
  No history at all for \<open>calculate_beta\<close>; two intraday bars per instrument, hence one
  training return, for the factor model; two days of history for the daily analysis.
\<close>

theorem below_minimum_sample_witness:
  "length (intersection (index ([] :: series)) (index ([] :: series))) < 30 \<and>
   calculate_beta ols_slope [] [] = Inr NaN \<and>
   fm_returns [(1767088800, 100), (1767089100, 101)] [(1767088800, 100), (1767089100, 101)]
       [(1767088800, 100), (1767089100, 101)]
     = Inr ([(1767089100, Fin (1/100))], [(1767089100, Fin (1/100))], [(1767089100, Fin (1/100))]) \<and>
   fm_training [(1767089100, Fin (1/100))] [(1767089100, Fin (1/100))] [(1767089100, Fin (1/100))]
     = Inr ([(1767089100, Fin (1/100))], [(1767089100, Fin (1/100), Fin (1/100))]) \<and>
   length [(1767089100 :: int, Fin (1/100))] < 100 \<and>
   run_factor_model (\<lambda>Y X. Inl ValueError) [(1767088800, 100), (1767089100, 101)]
       [(1767088800, 100), (1767089100, 101)] [(1767088800, 100), (1767089100, 101)]
     = Insufficient_training_data \<and>
   run_beta_analysis short_store ols_slope ''HAL'' ''XLE''
     = Inr (Some \<lparr>ticker = ''HAL'', benchmark = ''XLE'', beta = NaN,
                   event_return = Fin (1/10), expected_return = NaN,
                   abnormal_return = NaN, z_score = NaN\<rparr>) \<and>
   beta_conclusion \<lparr>ticker = ''HAL'', benchmark = ''XLE'', beta = NaN,
                   event_return = Fin (1/10), expected_return = NaN,
                   abnormal_return = NaN, z_score = NaN\<rparr> = No_leak"
proof -
  have r: "fm_returns [(1767088800, 100), (1767089100, 101)] [(1767088800, 100), (1767089100, 101)]
       [(1767088800, 100), (1767089100, 101)]
     = Inr ([(1767089100, Fin (1/100))], [(1767089100, Fin (1/100))], [(1767089100, Fin (1/100))])"
    by (simp add: fm_returns_def fm_load_5m_data_def between_time_def rth_open_def rth_close_def
        sort_index_def drop_duplicated_def fm_align_def intersection_def index_def Let_def
        dropna_def isna_def fsub_def)
  have t: "fm_training [(1767089100, Fin (1/100))] [(1767089100, Fin (1/100))] [(1767089100, Fin (1/100))]
     = Inr ([(1767089100, Fin (1/100))], [(1767089100, Fin (1/100), Fin (1/100))])"
    by (simp add: fm_training_def Let_def mask_select_def select_def train_cutoff_def data_frame_def
        union_index_def index_def lookup_def)
  have b: "run_beta_analysis short_store ols_slope ''HAL'' ''XLE''
     = Inr (Some \<lparr>ticker = ''HAL'', benchmark = ''XLE'', beta = NaN,
                   event_return = Fin (1/10), expected_return = NaN,
                   abnormal_return = NaN, z_score = NaN\<rparr>)"
    by (simp add: run_beta_defs short_store_def)
  note inst = below_minimum_sample[of "[]" "[]" ols_slope
      "[(1767088800, 100), (1767089100, 101)]" "[(1767088800, 100), (1767089100, 101)]"
      "[(1767088800, 100), (1767089100, 101)]"
      "[(1767089100, Fin (1/100))]" "[(1767089100, Fin (1/100))]" "[(1767089100, Fin (1/100))]"
      "[(1767089100, Fin (1/100))]" "[(1767089100, Fin (1/100), Fin (1/100))]"
      "\<lambda>Y X. Inl ValueError" short_store "''HAL''" "''XLE''"
      "\<lparr>ticker = ''HAL'', benchmark = ''XLE'', beta = NaN,
                   event_return = Fin (1/10), expected_return = NaN,
                   abnormal_return = NaN, z_score = NaN\<rparr>"]
  from inst r t b show ?thesis
    by (simp add: intersection_def index_def)
qed

subsection \<open>Loading and alignment\<close>

lemma keep_first_subset: "set (keep_first seen df) \<subseteq> set df"
  by (induction seen df rule: keep_first.induct) auto

lemma keep_first_fresh: "fst ` set (keep_first seen df) \<inter> set seen = {}"
  by (induction seen df rule: keep_first.induct) auto

lemma keep_first_distinct: "distinct (map fst (keep_first seen df))"
proof (induction seen df rule: keep_first.induct)
  case (1 seen)
  then show ?case by simp
next
  case (2 seen t v rest)
  have "t \<notin> fst ` set (keep_first (t # seen) rest)"
    using keep_first_fresh[of "t # seen" rest] by auto
  with 2 show ?case by auto
qed

lemma sort_index_keys: "mset (map fst (sort_index df)) = mset (map fst df)"
  by (simp add: sort_index_def)

lemma sort_index_distinct: "distinct (map fst (sort_index df)) = distinct (map fst df)"
  using sort_index_keys[of df] by (rule mset_eq_imp_distinct_iff)

lemma sort_index_sorted: "sorted (map fst (sort_index df))"
  by (simp add: sort_index_def)

lemma set_sort_index [simp]: "set (sort_index df) = set df"
  by (simp add: sort_index_def)

lemma loaded_frame:
  "distinct (index (between_time lo hi (sort_index (drop_duplicated df)))) \<and>
   sorted (index (between_time lo hi (sort_index (drop_duplicated df)))) \<and>
   set (between_time lo hi (sort_index (drop_duplicated df))) \<subseteq> set df"
proof -
  let ?d = "drop_duplicated df"
  have d: "distinct (map fst (sort_index ?d))"
    by (simp add: sort_index_distinct drop_duplicated_def keep_first_distinct)
  have s: "sorted (map fst (sort_index ?d))" by (rule sort_index_sorted)
  have sub: "set ?d \<subseteq> set df" by (simp add: drop_duplicated_def keep_first_subset)
  show ?thesis
    using d s sub
    by (auto simp: index_def between_time_def distinct_map_filter sorted_filter)
qed

lemma unique_labels_set: "set (unique_labels seen ts) = set ts - set seen"
  by (induction seen ts rule: unique_labels.induct) auto

lemma unique_labels_distinct: "distinct (unique_labels seen ts)"
  by (induction seen ts rule: unique_labels.induct) (auto simp: unique_labels_set)

lemma unique_labels_id: "distinct ts \<Longrightarrow> set ts \<inter> set seen = {} \<Longrightarrow> unique_labels seen ts = ts"
  by (induction seen ts rule: unique_labels.induct) auto

lemma length_unique_labels: "length (unique_labels seen ts) \<le> length ts"
  by (induction seen ts rule: unique_labels.induct) (auto simp: le_SucI)

lemma set_intersection [simp]: "set (intersection a b) = set a \<inter> set b"
  by (auto simp: intersection_def unique_labels_set)

lemma distinct_intersection [simp]: "distinct (intersection a b)"
  by (simp add: intersection_def unique_labels_distinct)

lemma length_intersection_left: "length (intersection a b) \<le> length a"
  unfolding intersection_def
  by (rule le_trans[OF length_filter_le length_unique_labels])

lemma length_intersection_right: "length (intersection a b) \<le> length b"
proof -
  have "length (intersection a b) = card (set (intersection a b))"
    by (simp add: distinct_card del: set_intersection)
  also have "\<dots> \<le> card (set b)" by (intro card_mono) auto
  also have "\<dots> \<le> length b" by (rule card_length)
  finally show ?thesis .
qed

lemma intersection_self: "distinct a \<Longrightarrow> intersection a a = a"
  by (simp add: intersection_def unique_labels_id)

lemma filter_key_single:
  "distinct (map fst df) \<Longrightarrow> t \<in> fst ` set df \<Longrightarrow>
   \<exists>v. filter (\<lambda>(k, v). k = t) df = [(t, v)] \<and> (t, v) \<in> set df"
proof (induction df)
  case Nil
  then show ?case by simp
next
  case (Cons x df)
  obtain k v where x: "x = (k, v)" by (cases x)
  show ?case
  proof (cases "k = t")
    case True
    with Cons.prems have "t \<notin> fst ` set df" by (simp add: x)
    then have "filter (\<lambda>(k, v). k = t) df = []"
      by (auto simp: filter_empty_conv image_iff)
    with True show ?thesis by (auto simp: x)
  next
    case False
    with Cons.prems have "distinct (map fst df)" "t \<in> fst ` set df" by (auto simp: x)
    from Cons.IH[OF this] False show ?thesis by (auto simp: x)
  qed
qed

lemma loc_distinct:
  "distinct (index df) \<Longrightarrow> set idx \<subseteq> set (index df) \<Longrightarrow>
   \<exists>rows. loc df idx = Inr rows \<and> index rows = idx \<and> set rows \<subseteq> set df"
proof (induction idx)
  case Nil
  then show ?case by (simp add: index_def)
next
  case (Cons t idx)
  from Cons.prems have "distinct (map fst df)" "t \<in> fst ` set df"
    by (auto simp: index_def)
  from filter_key_single[OF this] obtain v
    where v: "filter (\<lambda>(k, v). k = t) df = [(t, v)]" "(t, v) \<in> set df" by blast
  from Cons obtain rows where rows: "loc df idx = Inr rows" "index rows = idx" "set rows \<subseteq> set df"
    by auto
  show ?case using v rows by (simp add: index_def)
qed

lemma loc_total:
  "set idx \<subseteq> set (index df) \<Longrightarrow> \<exists>rows. loc df idx = Inr rows"
proof (induction idx)
  case Nil
  then show ?case by simp
next
  case (Cons t idx)
  then have "t \<in> fst ` set df" by (auto simp: index_def)
  then have "filter (\<lambda>(k, v). k = t) df \<noteq> []"
    by (auto simp: filter_empty_conv)
  moreover from Cons obtain rows where "loc df idx = Inr rows" by auto
  ultimately show ?case by (auto split: list.splits)
qed

lemma same_keys_same_rows:
  assumes keys: "map fst rows = map fst df" and sub: "set rows \<subseteq> set df"
      and d: "distinct (map fst df)"
  shows "rows = df"
proof (rule nth_equalityI)
  show len: "length rows = length df" using keys by (metis length_map)
  fix i assume i: "i < length rows"
  from d have inj: "inj_on fst (set df)" by (simp add: distinct_map)
  have "fst (rows ! i) = fst (df ! i)"
    using keys i len by (metis nth_map)
  moreover have "rows ! i \<in> set df" using sub i by auto
  moreover have "df ! i \<in> set df" using i len by simp
  ultimately show "rows ! i = df ! i" using inj by (auto dest: inj_onD)
qed

lemma loc_index_self: "distinct (index df) \<Longrightarrow> loc df (index df) = Inr df"
proof -
  assume d: "distinct (index df)"
  from loc_distinct[OF d subset_refl] obtain rows
    where rows: "loc df (index df) = Inr rows" "index rows = index df" "set rows \<subseteq> set df"
    by blast
  from same_keys_same_rows[of rows df] rows d have "rows = df" by (simp add: index_def)
  with rows show ?thesis by simp
qed

lemma load_5m_data_distinct:
  "fm_load_5m_data df = Inr x \<Longrightarrow> distinct (index x) \<and> sorted (index x) \<and> set x \<subseteq> set df"
  "sc_load_5m_data df = Some y \<Longrightarrow> distinct (index y) \<and> sorted (index y) \<and> set y \<subseteq> set df"
  using loaded_frame[of rth_open rth_close df]
  by (auto simp: fm_load_5m_data_def sc_load_5m_data_def split: if_splits)

text \<open>
  Claim C8.  Two or three price series with unique timestamps, as \<open>load_5m_data\<close> produces
  them, aligned to the intersection of their indexes: the alignment succeeds, the outputs
  carry the same timestamps position by position (the common ones, in the order of the
  first series), so they have equal length, and that length is at most the length of each
  input, hence of the shortest.
\<close>

theorem alignment_intersection:
  assumes da: "distinct (index a)" and db: "distinct (index b)" and dc: "distinct (index c)"
  shows "(\<exists>a' b'. sc_align a b = Inr (a', b') \<and>
            index a' = intersection (index a) (index b) \<and> index b' = index a' \<and>
            set (index a') = set (index a) \<inter> set (index b) \<and>
            length a' = length b' \<and> length a' \<le> length a \<and> length a' \<le> length b) \<and>
         (\<exists>a' b' c'. fm_align a b c = Inr (a', b', c') \<and>
            index a' = intersection (intersection (index a) (index b)) (index c) \<and>
            index b' = index a' \<and> index c' = index a' \<and>
            set (index a') = set (index a) \<inter> set (index b) \<inter> set (index c) \<and>
            length a' = length b' \<and> length b' = length c' \<and>
            length a' \<le> length a \<and> length a' \<le> length b \<and> length a' \<le> length c)"
proof
  let ?i = "intersection (index a) (index b)"
  from loc_distinct[OF da, of ?i] obtain a' where a': "loc a ?i = Inr a'" "index a' = ?i" by auto
  from loc_distinct[OF db, of ?i] obtain b' where b': "loc b ?i = Inr b'" "index b' = ?i" by auto
  have la: "length a' = length ?i" using a'(2) by (metis index_def length_map)
  have lb: "length b' = length ?i" using b'(2) by (metis index_def length_map)
  have "length ?i \<le> length a" "length ?i \<le> length b"
    using length_intersection_left[of "index a" "index b"]
      length_intersection_right[of "index a" "index b"] by (simp_all add: index_def)
  with a' b' la lb
  show "\<exists>a' b'. sc_align a b = Inr (a', b') \<and>
            index a' = intersection (index a) (index b) \<and> index b' = index a' \<and>
            set (index a') = set (index a) \<inter> set (index b) \<and>
            length a' = length b' \<and> length a' \<le> length a \<and> length a' \<le> length b"
    by (simp add: sc_align_def)
next
  let ?i = "intersection (intersection (index a) (index b)) (index c)"
  from loc_distinct[OF da, of ?i] obtain a' where a': "loc a ?i = Inr a'" "index a' = ?i" by auto
  from loc_distinct[OF db, of ?i] obtain b' where b': "loc b ?i = Inr b'" "index b' = ?i" by auto
  from loc_distinct[OF dc, of ?i] obtain c' where c': "loc c ?i = Inr c'" "index c' = ?i" by auto
  have la: "length a' = length ?i" using a'(2) by (metis index_def length_map)
  have lb: "length b' = length ?i" using b'(2) by (metis index_def length_map)
  have lc: "length c' = length ?i" using c'(2) by (metis index_def length_map)
  have "length ?i \<le> length (intersection (index a) (index b))"
    by (rule length_intersection_left)
  then have "length ?i \<le> length a" "length ?i \<le> length b"
    using length_intersection_left[of "index a" "index b"]
      length_intersection_right[of "index a" "index b"] by (simp_all add: index_def)
  moreover have "length ?i \<le> length c"
    using length_intersection_right[of "intersection (index a) (index b)" "index c"]
    by (simp add: index_def)
  ultimately
  show "\<exists>a' b' c'. fm_align a b c = Inr (a', b', c') \<and>
            index a' = intersection (intersection (index a) (index b)) (index c) \<and>
            index b' = index a' \<and> index c' = index a' \<and>
            set (index a') = set (index a) \<inter> set (index b) \<inter> set (index c) \<and>
            length a' = length b' \<and> length b' = length c' \<and>
            length a' \<le> length a \<and> length a' \<le> length b \<and> length a' \<le> length c"
    using a' b' c' la lb lc by (simp add: fm_align_def)
qed

text \<open>Three series on the labels 1 to 3, 2 to 5, and 3 to 4.\<close>

theorem alignment_intersection_witness:
  "distinct (index [(1 :: int, 10 :: real), (2, 11), (3, 12)]) \<and>
   distinct (index [(2 :: int, 20 :: real), (3, 21), (4, 22), (5, 23)]) \<and>
   distinct (index [(3 :: int, 30 :: real), (4, 31)]) \<and>
   sc_align [(1, 10), (2, 11), (3, 12)] [(2, 20), (3, 21), (4, 22), (5, 23)]
     = Inr ([(2, 11), (3, 12)], [(2, 20), (3, 21)]) \<and>
   fm_align [(1, 10), (2, 11), (3, 12)] [(2, 20), (3, 21), (4, 22), (5, 23)] [(3, 30), (4, 31)]
     = Inr ([(3, 12)], [(3, 21)], [(3, 30)])"
  using alignment_intersection[of "[(1, 10), (2, 11), (3, 12)]"
      "[(2, 20), (3, 21), (4, 22), (5, 23)]" "[(3, 30), (4, 31)]"]
  by (simp add: sc_align_def fm_align_def intersection_def index_def)

subsection \<open>Spread placebo sample\<close>

lemma index_normalize_to_open [simp]: "index (normalize_to_open c0 day) = index day"
  by (simp add: index_def normalize_to_open_def comp_def case_prod_unfold)

lemma map_of_normalize_to_open:
  "map_of (normalize_to_open c0 day) t = map_option (\<lambda>c. fdiv (Fin c) (Fin c0)) (map_of day t)"
  by (simp add: normalize_to_open_def map_of_map)

lemma lookup_normalize_to_open_head: "c0 \<noteq> 0 \<Longrightarrow> lookup (normalize_to_open c0 ((t0, c0) # rest)) t0 = Fin 1"
  by (simp add: lookup_def map_of_normalize_to_open)

lemma lookup_normalize_to_open_fin:
  assumes "c0 \<noteq> 0" and "t \<in> set (index day)"
  shows "\<exists>r. lookup (normalize_to_open c0 day) t = Fin r"
proof -
  from assms(2) have "map_of day t \<noteq> None"
    by (simp add: index_def map_of_eq_None_iff)
  then obtain c where "map_of day t = Some c" by auto
  with assms(1) show ?thesis by (simp add: lookup_def map_of_normalize_to_open)
qed

lemma all_fin_map: "(\<forall>v \<in> set xs. \<exists>r. v = Fin r) \<Longrightarrow> \<exists>rs. xs = map Fin rs"
proof (induction xs)
  case Nil
  then show ?case by simp
next
  case (Cons x xs)
  then obtain r rs where "x = Fin r" "xs = map Fin rs" by auto
  then have "x # xs = map Fin (r # rs)" by simp
  then show ?case by (rule exI)
qed

lemma foldl_fmax_fin: "foldl fmax (Fin a) (map Fin rs) = Fin (foldl max a rs)"
  by (induction rs arbitrary: a) (auto simp: fmax_def max_def)

lemma foldl_max_ge: "(a :: real) \<le> foldl max a rs"
proof (induction rs arbitrary: a)
  case Nil
  then show ?case by simp
next
  case (Cons r rs)
  have "a \<le> max a r" by simp
  also have "\<dots> \<le> foldl max (max a r) rs" by (rule Cons.IH)
  finally show ?case by simp
qed

lemma series_max_fin: "\<exists>m. series_max (Fin a # map Fin rs) = Fin m \<and> a \<le> m"
proof -
  have "nonmissing (Fin a # map Fin rs) = Fin a # map Fin rs"
    by (simp add: nonmissing_def isna_def filter_id_conv)
  then have "series_max (Fin a # map Fin rs) = Fin (foldl max a rs)"
    by (simp add: series_max_def foldl_fmax_fin)
  with foldl_max_ge[of a rs] show ?thesis by blast
qed

lemma lookup_row:
  assumes "distinct (index a)" and "i < length a"
  shows "lookup a (fst (a ! i)) = snd (a ! i)"
proof -
  have "(fst (a ! i), snd (a ! i)) \<in> set a" using assms(2) by simp
  with assms(1) have "map_of a (fst (a ! i)) = Some (snd (a ! i))"
    by (intro map_of_is_SomeI) (simp_all add: index_def)
  then show ?thesis by (simp add: lookup_def)
qed

lemma series_binop_distinct:
  assumes eq: "index a = index b" and d: "distinct (index a)"
  shows "series_binop f a b = map (\<lambda>t. (t, f (lookup a t) (lookup b t))) (index a)"
proof -
  from eq have len: "length a = length b" by (metis index_def length_map)
  have db: "distinct (index b)" using eq d by simp
  have "map (\<lambda>((t, x), (t', y)). (t, f x y)) (zip a b)
          = map (\<lambda>t. (t, f (lookup a t) (lookup b t))) (index a)"
  proof (rule nth_equalityI)
    show "length (map (\<lambda>((t, x), (t', y)). (t, f x y)) (zip a b))
            = length (map (\<lambda>t. (t, f (lookup a t) (lookup b t))) (index a))"
      using len by (simp add: index_def)
  next
    fix i assume "i < length (map (\<lambda>((t, x), (t', y)). (t, f x y)) (zip a b))"
    then have i: "i < length a" "i < length b" using len by simp_all
    have k: "fst (b ! i) = fst (a ! i)"
      using eq i by (metis index_def nth_map)
    have la: "lookup a (fst (a ! i)) = snd (a ! i)" by (rule lookup_row[OF d i(1)])
    have lb: "lookup b (fst (a ! i)) = snd (b ! i)"
      using lookup_row[OF db i(2)] k by simp
    show "map (\<lambda>((t, x), (t', y)). (t, f x y)) (zip a b) ! i
            = map (\<lambda>t. (t, f (lookup a t) (lookup b t))) (index a) ! i"
      using i la lb by (simp add: index_def case_prod_unfold)
  qed
  with eq show ?thesis by (simp add: series_binop_def)
qed

lemma day_spread_first_bar:
  assumes dx: "distinct (index xd)" and dy: "distinct (index od)"
      and ne: "intersection (index xd) (index od) \<noteq> []"
      and nzx: "\<forall>(t, c) \<in> set xd. c \<noteq> 0" and nzy: "\<forall>(t, c) \<in> set od. c \<noteq> 0"
  shows "\<exists>spread rs. day_spread xd od (intersection (index xd) (index od)) = Inr spread \<and>
           index spread = intersection (index xd) (index od) \<and>
           map snd spread = Fin 0 # map Fin rs"
proof -
  let ?common = "intersection (index xd) (index od)"
  from ne obtain t0 rest where common: "?common = t0 # rest" by (cases ?common) auto
  from loc_distinct[OF dx, of ?common] obtain xc
    where xc: "loc xd ?common = Inr xc" "index xc = ?common" "set xc \<subseteq> set xd" by auto
  from loc_distinct[OF dy, of ?common] obtain oc
    where oc: "loc od ?common = Inr oc" "index oc = ?common" "set oc \<subseteq> set od" by auto
  from xc(2) common obtain x0 xr where xc_eq: "xc = (t0, x0) # xr"
    by (cases xc) (auto simp: index_def)
  from oc(2) common obtain y0 yr where oc_eq: "oc = (t0, y0) # yr"
    by (cases oc) (auto simp: index_def)
  have x0: "x0 \<noteq> 0" using xc(3) nzx by (auto simp: xc_eq)
  have y0: "y0 \<noteq> 0" using oc(3) nzy by (auto simp: oc_eq)
  let ?xn = "normalize_to_open x0 xc" and ?yn = "normalize_to_open y0 oc"
  let ?f = "\<lambda>t. fsub (lookup ?xn t) (lookup ?yn t)"
  have sp: "day_spread xd od ?common = Inr (map (\<lambda>t. (t, ?f t)) ?common)"
  proof -
    have eq: "index ?xn = index ?yn" by (simp add: xc(2) oc(2))
    have dn: "distinct (index ?xn)" by (simp add: xc(2))
    have "series_binop fsub ?xn ?yn = map (\<lambda>t. (t, ?f t)) (index ?xn)"
      by (rule series_binop_distinct[OF eq dn])
    then have "series_binop fsub ?xn ?yn = map (\<lambda>t. (t, ?f t)) ?common"
      by (simp add: xc(2))
    then show ?thesis
      unfolding day_spread_def xc(1) oc(1) by (simp add: xc_eq oc_eq)
  qed
  have head: "?f t0 = Fin 0"
    using x0 y0 by (simp add: xc_eq oc_eq lookup_normalize_to_open_head fsub_def)
  have "\<forall>v \<in> set (map ?f rest). \<exists>r. v = Fin r"
  proof
    fix v assume "v \<in> set (map ?f rest)"
    then obtain t where t: "t \<in> set rest" "v = ?f t" by auto
    then have "t \<in> set (index xc)" "t \<in> set (index oc)" using common xc(2) oc(2) by auto
    from lookup_normalize_to_open_fin[OF x0 this(1)] lookup_normalize_to_open_fin[OF y0 this(2)]
    obtain a b where "lookup ?xn t = Fin a" "lookup ?yn t = Fin b" by auto
    with t show "\<exists>r. v = Fin r" by (simp add: fsub_def)
  qed
  then have "\<exists>rs. map ?f rest = map Fin rs" by (rule all_fin_map)
  then obtain rs where rs: "map ?f rest = map Fin rs" ..
  have "map snd (map (\<lambda>t. (t, ?f t)) ?common) = Fin 0 # map Fin rs"
    using head rs by (simp add: common comp_def)
  moreover have "index (map (\<lambda>t. (t, ?f t)) ?common) = ?common"
    by (simp add: index_def comp_def)
  ultimately show ?thesis using sp
    by (intro exI[of _ "map (\<lambda>t. (t, ?f t)) ?common"] exI[of _ rs]) simp
qed


lemma day_max_spread_cases:
  assumes dx: "distinct (index xb)" and dy: "distinct (index ob)"
      and nzx: "\<forall>(t, c) \<in> set xb. c \<noteq> 0" and nzy: "\<forall>(t, c) \<in> set ob. c \<noteq> 0"
  shows "day_max_spread xb ob d = None \<or>
         (\<exists>spread m.
            30 \<le> length (intersection (index (filter (\<lambda>(t, c). date_of t = d) xb))
                                      (index (filter (\<lambda>(t, c). date_of t = d) ob))) \<and>
            day_spread (filter (\<lambda>(t, c). date_of t = d) xb) (filter (\<lambda>(t, c). date_of t = d) ob)
              (intersection (index (filter (\<lambda>(t, c). date_of t = d) xb))
                            (index (filter (\<lambda>(t, c). date_of t = d) ob))) = Inr spread \<and>
            snd (hd spread) = Fin 0 \<and> series_max (map snd spread) = Fin m \<and> 0 \<le> m \<and>
            day_max_spread xb ob d = Some (Inr (Fin m)))"
proof -
  let ?xd = "filter (\<lambda>(t, c). date_of t = d) xb"
  let ?od = "filter (\<lambda>(t, c). date_of t = d) ob"
  let ?common = "intersection (index ?xd) (index ?od)"
  show ?thesis
  proof (cases "?xd = [] \<or> ?od = [] \<or> length ?common < 30")
    case True
    then have "day_max_spread xb ob d = None"
      by (auto simp: day_max_spread_def Let_def)
    then show ?thesis ..
  next
    case False
    then have adm: "?xd \<noteq> []" "?od \<noteq> []" "30 \<le> length ?common" by auto
    then have ne: "?common \<noteq> []" by auto
    have dxd: "distinct (index ?xd)" using dx by (simp add: index_def distinct_map_filter)
    have dod: "distinct (index ?od)" using dy by (simp add: index_def distinct_map_filter)
    have nzxd: "\<forall>(t, c) \<in> set ?xd. c \<noteq> 0" using nzx by auto
    have nzod: "\<forall>(t, c) \<in> set ?od. c \<noteq> 0" using nzy by auto
    from day_spread_first_bar[OF dxd dod ne nzxd nzod] obtain spread rs
      where sp: "day_spread ?xd ?od ?common = Inr spread" "map snd spread = Fin 0 # map Fin rs"
      by auto
    from series_max_fin[of 0 rs] obtain m where m: "series_max (Fin 0 # map Fin rs) = Fin m" "0 \<le> m"
      by auto
    from sp(2) have "spread \<noteq> []" by auto
    with sp(2) have hd0: "snd (hd spread) = Fin 0" by (cases spread) auto
    have dm: "day_max_spread xb ob d = Some (Inr (Fin m))"
      using adm sp m by (simp add: day_max_spread_def Let_def)
    show ?thesis
      using adm(3) sp(1) hd0 m dm sp(2) by (intro disjI2 exI[of _ spread] exI[of _ m]) simp
  qed
qed

lemma spread_loop_nonnegative:
  assumes dx: "distinct (index xb)" and dy: "distinct (index ob)"
      and nzx: "\<forall>(t, c) \<in> set xb. c \<noteq> 0" and nzy: "\<forall>(t, c) \<in> set ob. c \<noteq> 0"
  shows "\<exists>ms. spread_loop xb ob ds = Inr ms \<and> (\<forall>v \<in> set ms. \<exists>m\<ge>0. v = Fin m)"
proof (induction ds)
  case Nil
  then show ?case by simp
next
  case (Cons d ds)
  then obtain ms where ms: "spread_loop xb ob ds = Inr ms" "\<forall>v \<in> set ms. \<exists>m\<ge>0. v = Fin m"
    by auto
  from day_max_spread_cases[OF dx dy nzx nzy, of d]
  consider "day_max_spread xb ob d = None"
    | m where "0 \<le> m" "day_max_spread xb ob d = Some (Inr (Fin m))"
    by auto
  then show ?case
  proof cases
    case 1
    with ms show ?thesis by simp
  next
    case 2
    with ms show ?thesis by simp
  qed
qed

lemma select_same_index:
  fixes xs ys :: frame
  assumes "map fst xs = map fst ys"
  shows "select (map (\<lambda>(t, c). Q t) xs) ys = filter (\<lambda>(t, c). Q t) ys"
proof -
  have "map (\<lambda>(t, c). Q t) xs = map Q (map fst xs)" by (simp add: case_prod_unfold comp_def)
  also have "\<dots> = map Q (map fst ys)" by (simp add: assms)
  also have "\<dots> = map (\<lambda>(t, c). Q t) ys" by (simp add: case_prod_unfold comp_def)
  finally show ?thesis by (simp add: select_map_filter)
qed

lemma daily_max_spreads_nonnegative:
  assumes idx: "index xle = index oil" and d: "distinct (index xle)"
      and nzx: "\<forall>(t, c) \<in> set xle. c \<noteq> 0" and nzy: "\<forall>(t, c) \<in> set oil. c \<noteq> 0"
  shows "\<exists>ms. daily_max_spreads xle oil = Inr ms \<and> (\<forall>v \<in> set ms. \<exists>m\<ge>0. v = Fin m)"
proof -
  let ?P = "\<lambda>(t :: timestamp, c :: real). t < train_cutoff"
  let ?xb = "filter ?P xle" and ?ob = "filter ?P oil"
  have len: "length oil = length xle" using idx by (metis index_def length_map)
  have xb: "select (map ?P xle) xle = ?xb" by (rule select_map_filter)
  have ob: "select (map ?P xle) oil = ?ob"
    using idx by (intro select_same_index) (simp add: index_def)
  have dxb: "distinct (index ?xb)" using d by (simp add: index_def distinct_map_filter)
  have dob: "distinct (index ?ob)" using d idx by (simp add: index_def distinct_map_filter)
  have nzxb: "\<forall>(t, c) \<in> set ?xb. c \<noteq> 0" using nzx by auto
  have nzob: "\<forall>(t, c) \<in> set ?ob. c \<noteq> 0" using nzy by auto
  let ?dates = "sort (remdups (map (\<lambda>(t, c). date_of t) ?xb))"
  from spread_loop_nonnegative[OF dxb dob nzxb nzob, of ?dates] obtain ms
    where ms: "spread_loop ?xb ?ob ?dates = Inr ms" "\<forall>v \<in> set ms. \<exists>m\<ge>0. v = Fin m" by auto
  have run: "daily_max_spreads xle oil = Inr (map (\<lambda>v. fmul v (Fin 100)) ms)"
    using len ms(1) by (simp add: daily_max_spreads_def Let_def df_mask_select_def xb ob)
  have "\<forall>v \<in> set (map (\<lambda>v. fmul v (Fin 100)) ms). \<exists>m\<ge>0. v = Fin m"
  proof
    fix v assume "v \<in> set (map (\<lambda>v. fmul v (Fin 100)) ms)"
    then obtain u where u: "u \<in> set ms" "v = fmul u (Fin 100)" by auto
    with ms(2) obtain m where "0 \<le> m" "u = Fin m" by auto
    with u have "v = Fin (m * 100)" "0 \<le> m * 100" by simp_all
    then show "\<exists>m\<ge>0. v = Fin m" by auto
  qed
  with run show ?thesis by auto
qed

lemma sc_align_distinct:
  assumes da: "distinct (index a)" and db: "distinct (index b)"
  shows "\<exists>a' b'. sc_align a b = Inr (a', b') \<and> index a' = index b' \<and> distinct (index a') \<and>
           set a' \<subseteq> set a \<and> set b' \<subseteq> set b"
proof -
  let ?i = "intersection (index a) (index b)"
  from loc_distinct[OF da, of ?i] obtain a'
    where a': "loc a ?i = Inr a'" "index a' = ?i" "set a' \<subseteq> set a" by auto
  from loc_distinct[OF db, of ?i] obtain b'
    where b': "loc b ?i = Inr b'" "index b' = ?i" "set b' \<subseteq> set b" by auto
  show ?thesis using a' b' by (simp add: sc_align_def)
qed

text \<open>
  Claim C10.  Price files with positive closes.  For baseline frames with unique
  timestamps taken from them and any day, either the day is skipped, or it has at least 30
  aligned bars and then both closes are divided by their value at the first aligned bar,
  the spread of the day is exactly 0 at its first bar, and the day's maximum spread is a
  finite number \<open>\<ge> 0\<close>.  The run as a whole either has no data or produces a sample all of
  whose elements are finite and non-negative.
\<close>

theorem spread_sample_nonnegative:
  assumes pos: "\<forall>(t, c) \<in> set xle_files \<union> set oil_files. 0 < c"
      and dx: "distinct (index xle_base)" and dy: "distinct (index oil_base)"
      and sx: "set xle_base \<subseteq> set xle_files" and sy: "set oil_base \<subseteq> set oil_files"
  shows "(day_max_spread xle_base oil_base d = None \<or>
          (\<exists>spread m.
             30 \<le> length (intersection (index (filter (\<lambda>(t, c). date_of t = d) xle_base))
                                       (index (filter (\<lambda>(t, c). date_of t = d) oil_base))) \<and>
             day_spread (filter (\<lambda>(t, c). date_of t = d) xle_base)
                 (filter (\<lambda>(t, c). date_of t = d) oil_base)
                 (intersection (index (filter (\<lambda>(t, c). date_of t = d) xle_base))
                               (index (filter (\<lambda>(t, c). date_of t = d) oil_base))) = Inr spread \<and>
             snd (hd spread) = Fin 0 \<and> series_max (map snd spread) = Fin m \<and> 0 \<le> m \<and>
             day_max_spread xle_base oil_base d = Some (Inr (Fin m)))) \<and>
         (run_spread_placebo xle_files oil_files = Inr None \<or>
          (\<exists>rep. run_spread_placebo xle_files oil_files = Inr (Some rep) \<and>
                 (\<forall>v \<in> set (sample rep). \<exists>m\<ge>0. v = Fin m)))"
proof
  have nzx: "\<forall>(t, c) \<in> set xle_base. c \<noteq> 0" using pos sx by fastforce
  have nzy: "\<forall>(t, c) \<in> set oil_base. c \<noteq> 0" using pos sy by fastforce
  show "day_max_spread xle_base oil_base d = None \<or>
          (\<exists>spread m.
             30 \<le> length (intersection (index (filter (\<lambda>(t, c). date_of t = d) xle_base))
                                       (index (filter (\<lambda>(t, c). date_of t = d) oil_base))) \<and>
             day_spread (filter (\<lambda>(t, c). date_of t = d) xle_base)
                 (filter (\<lambda>(t, c). date_of t = d) oil_base)
                 (intersection (index (filter (\<lambda>(t, c). date_of t = d) xle_base))
                               (index (filter (\<lambda>(t, c). date_of t = d) oil_base))) = Inr spread \<and>
             snd (hd spread) = Fin 0 \<and> series_max (map snd spread) = Fin m \<and> 0 \<le> m \<and>
             day_max_spread xle_base oil_base d = Some (Inr (Fin m)))"
    by (rule day_max_spread_cases[OF dx dy nzx nzy])
next
  show "run_spread_placebo xle_files oil_files = Inr None \<or>
          (\<exists>rep. run_spread_placebo xle_files oil_files = Inr (Some rep) \<and>
                 (\<forall>v \<in> set (sample rep). \<exists>m\<ge>0. v = Fin m))"
  proof (cases "sc_load_5m_data xle_files")
    case None
    then show ?thesis by (simp add: run_spread_placebo_def)
  next
    case xl: (Some xle)
    show ?thesis
    proof (cases "sc_load_5m_data oil_files")
      case None
      with xl show ?thesis by (simp add: run_spread_placebo_def)
    next
      case ol: (Some oil)
      from load_5m_data_distinct(2)[OF xl] have x: "distinct (index xle)" "set xle \<subseteq> set xle_files"
        by simp_all
      from load_5m_data_distinct(2)[OF ol] have o: "distinct (index oil)" "set oil \<subseteq> set oil_files"
        by simp_all
      from sc_align_distinct[OF x(1) o(1)] obtain a' b'
        where al: "sc_align xle oil = Inr (a', b')" "index a' = index b'" "distinct (index a')"
          "set a' \<subseteq> set xle" "set b' \<subseteq> set oil" by auto
      have nza: "\<forall>(t, c) \<in> set a'. c \<noteq> 0" using pos x(2) al(4) by fastforce
      have nzb: "\<forall>(t, c) \<in> set b'. c \<noteq> 0" using pos o(2) al(5) by fastforce
      from daily_max_spreads_nonnegative[OF al(2) al(3) nza nzb] obtain ms
        where ms: "daily_max_spreads a' b' = Inr ms" "\<forall>v \<in> set ms. \<exists>m\<ge>0. v = Fin m" by auto
      show ?thesis
        using xl ol al(1) ms by (simp add: run_spread_placebo_def)
    qed
  qed
qed

lemmas placebo_defs =
  run_spread_placebo_def sc_load_5m_data_def between_time_def rth_open_def rth_close_def
  sort_index_def drop_duplicated_def sc_align_def intersection_def index_def Let_def
  daily_max_spreads_def df_mask_select_def select_def train_cutoff_def date_of_def
  day_max_spread_def day_spread_def normalize_to_open_def series_binop_def rows_at_def
  join_at_def series_max_def nonmissing_def isna_def fmax_def fsub_def
  percentile_rank_def np_mean_def np_std_def fsum_def event_val_def

lemma rising_day: "day_max_spread rising_xle steady_oil 20452 = Some (Inr (Fin (29 / 100)))"
  by (simp add: placebo_defs rising_xle_def steady_oil_def)

lemma rising_run:
  "map_sum id (map_option sample) (run_spread_placebo rising_xle steady_oil) = Inr (Some [Fin 29])"
  by (simp add: placebo_defs rising_xle_def steady_oil_def)


text \<open>
  The day of thirty bars: its spread starts at 0 and rises to 29/100, so the sample of
  the run is the single value 29 (percent).
\<close>

theorem spread_sample_nonnegative_witness:
  "list_all (\<lambda>(t, c). 0 < c) (rising_xle @ steady_oil) \<and>
   distinct (index rising_xle) \<and> distinct (index steady_oil) \<and>
   day_max_spread rising_xle steady_oil 20452 = Some (Inr (Fin (29 / 100))) \<and>
   map_sum id (map_option sample) (run_spread_placebo rising_xle steady_oil) = Inr (Some [Fin 29])"
proof -
  have h1: "\<forall>(t, c) \<in> set rising_xle \<union> set steady_oil. 0 < c"
    by (simp add: rising_xle_def steady_oil_def)
  have h2: "distinct (index rising_xle)"
    by (simp add: rising_xle_def index_def)
  have h3: "distinct (index steady_oil)"
    by (simp add: steady_oil_def index_def)
  have h0: "list_all (\<lambda>(t, c). 0 < c) (rising_xle @ steady_oil)"
    using h1 by (simp add: list_all_iff Ball_def)
  from spread_sample_nonnegative[OF h1 h2 h3 subset_refl subset_refl, of 20452]
    h0 h2 h3 rising_day rising_run
  show ?thesis by simp
qed

subsection \<open>The no-result path of the daily analysis\<close>

text \<open>
  When the two return series have the same length and the regression does not raise, a
  missing event date in either series gives "no result": the exception at the input with
  the shorter benchmark file comes from the length mismatch alone.
\<close>

lemma calculate_beta_total:
  assumes lr: "\<forall>x y. \<exists>b. lr x y = Inr b"
  shows "\<exists>b. calculate_beta lr a m = Inr b"
proof -
  let ?i = "intersection (index a) (index m)"
  from loc_total[of ?i a] obtain y where y: "loc a ?i = Inr y" by auto
  from loc_total[of ?i m] obtain x where x: "loc m ?i = Inr x" by auto
  from lr obtain b where "lr (map snd x) (map snd y) = Inr b" by blast
  with x y show ?thesis by (simp add: calculate_beta_def Let_def)
qed

lemma missing_event_date_no_result:
  assumes lt: "load_daily_data store tt = Inr tc"
      and lm: "load_daily_data store mt = Inr mc"
      and len: "length (simple_returns mc) = length (simple_returns tc)"
      and lr: "\<forall>x y. \<exists>b. lr x y = Inr b"
      and missing: "event_day_return (simple_returns tc) = None \<or> event_day_return (simple_returns mc) = None"
  shows "run_beta_analysis store lr tt mt = Inr None"
proof -
  let ?hm = "map (\<lambda>(t, v). date_of t < event_date) (simple_returns tc)"
  have mh: "mask_select ?hm (simple_returns mc) = Inr (select ?hm (simple_returns mc))"
    using len by (simp add: mask_select_def)
  from calculate_beta_total[OF lr] obtain b
    where b: "calculate_beta lr (select ?hm (simple_returns tc)) (select ?hm (simple_returns mc)) = Inr b"
    by blast
  from missing mh b show ?thesis
    by (auto simp: run_beta_analysis_def lt lm Let_def simple_returns_def[symmetric] split: option.splits)
qed

subsection \<open>Series arithmetic on repeated labels\<close>

text \<open>
  With equal indexes the rows are combined position by position, also where a label is
  repeated; with different indexes a repeated label pairs every row of the left with
  every row of the right.
\<close>

lemma series_binop_repeated_label:
  "series_binop fsub [(1, Fin 1), (1, Fin 2), (2, Fin 3)] [(1, Fin 1), (1, Fin (1 / 2)), (2, Fin 0)]
     = [(1, Fin 0), (1, Fin (3 / 2)), (2, Fin 3)] \<and>
   series_binop fsub [(1, Fin 1), (1, Fin 2)] [(1, Fin 1), (2, Fin 5)]
     = [(1, Fin 0), (1, Fin 1), (2, NaN)]"
  by (simp add: series_binop_def index_def join_at_def rows_at_def fsub_def)

end
